theory Spec2Isabelle
  imports Complex_Main "HOL-Library.AList"
begin

section \<open>Strings\<close>

text \<open>
  A JavaScript string is a sequence of UTF-16 code units; the regular expressions of the
  program have no \<^verbatim>\<open>u\<close> flag, so they work on code units too.  Code units are
  natural numbers here: \<open>955\<close> is the Greek small lambda, \<open>1083\<close> the Cyrillic small el.
\<close>

type_synonym jsstring = "nat list"

definition word_char :: "nat \<Rightarrow> bool" where
  \<comment> \<open>the class \<^verbatim>\<open>\w\<close>: \<^verbatim>\<open>[A-Za-z0-9_]\<close>\<close>
  "word_char c \<longleftrightarrow> (65 \<le> c \<and> c \<le> 90) \<or> (97 \<le> c \<and> c \<le> 122) \<or> (48 \<le> c \<and> c \<le> 57) \<or> c = 95"

definition greek_kept :: "nat \<Rightarrow> bool" where
  \<comment> \<open>what the first class of \<^verbatim>\<open>createWordKey\<close> keeps: \<^verbatim>\<open>\w\<close>, U+03B1..U+03C9 and U+0391..U+03A9\<close>
  "greek_kept c \<longleftrightarrow> word_char c \<or> (945 \<le> c \<and> c \<le> 969) \<or> (913 \<le> c \<and> c \<le> 937)"

definition bulgarian_kept :: "nat \<Rightarrow> bool" where
  \<comment> \<open>what the second class keeps: \<^verbatim>\<open>\w\<close>, U+0430..U+044F and U+0410..U+042F\<close>
  "bulgarian_kept c \<longleftrightarrow> word_char c \<or> (1072 \<le> c \<and> c \<le> 1103) \<or> (1040 \<le> c \<and> c \<le> 1071)"

definition cased :: "nat \<Rightarrow> bool" where
  \<comment> \<open>the cased letters among the code units that the two classes keep\<close>
  "cased c \<longleftrightarrow> (65 \<le> c \<and> c \<le> 90) \<or> (97 \<le> c \<and> c \<le> 122)
     \<or> (913 \<le> c \<and> c \<le> 937 \<and> c \<noteq> 930) \<or> (945 \<le> c \<and> c \<le> 969) \<or> (1040 \<le> c \<and> c \<le> 1103)"

definition is_upper :: "nat \<Rightarrow> bool" where
  \<comment> \<open>the capital letters among the kept code units; U+03A2 is unassigned\<close>
  "is_upper c \<longleftrightarrow> (65 \<le> c \<and> c \<le> 90) \<or> (913 \<le> c \<and> c \<le> 937 \<and> c \<noteq> 930) \<or> (1040 \<le> c \<and> c \<le> 1071)"

definition lower_unit :: "nat \<Rightarrow> nat" where
  \<comment> \<open>the simple lower-case mapping of a kept code unit\<close>
  "lower_unit c = (if is_upper c then c + 32 else c)"

text \<open>
  \<^verbatim>\<open>String.prototype.toLowerCase\<close> on a string of kept code units.  The only mapping that
  looks at the context is the one of the capital sigma (U+03A3): it becomes the final
  sigma (U+03C2) when a cased letter stands before it and none after it, and the small
  sigma (U+03C3) otherwise.  No kept code unit is case-ignorable, so the neighbours
  decide.  The flag says whether the code unit before is a cased letter.
\<close>

fun lower_from :: "bool \<Rightarrow> jsstring \<Rightarrow> jsstring" where
  "lower_from prev [] = []"
| "lower_from prev (c # cs) =
     (if c = 931
      then (if prev \<and> \<not> (case cs of [] \<Rightarrow> False | d # _ \<Rightarrow> cased d) then 962 else 963)
      else lower_unit c) # lower_from (cased c) cs"

definition toLowerCase :: "jsstring \<Rightarrow> jsstring" where
  "toLowerCase s = lower_from False s"

function dec :: "nat \<Rightarrow> jsstring" where
  "dec n = (if n < 10 then [48 + n] else dec (n div 10) @ [48 + n mod 10])"
  by pat_completeness auto
termination
  by (relation "measure id") auto

declare dec.simps [simp del]

fun frac_digits :: "nat \<Rightarrow> rat \<Rightarrow> jsstring" where
  "frac_digits 0 r = []"
| "frac_digits (Suc k) r =
     (if r = 0 then []
      else (48 + nat \<lfloor>r * 10\<rfloor>) # frac_digits k (r * 10 - of_int \<lfloor>r * 10\<rfloor>))"

text \<open>
  The string that a template literal prints for a number: the decimal numeral, with a
  fraction only when there is one.  (JavaScript turns to the exponent notation below
  \<open>1e-6\<close> and from \<open>1e21\<close> on; lesson numbers are far from both.)
\<close>

definition Number_toString :: "rat \<Rightarrow> jsstring" where
  "Number_toString q =
     (let a = \<bar>q\<bar>; i = \<lfloor>a\<rfloor>; f = a - of_int i
      in (if q < 0 then [45] else []) @ dec (nat i) @ (if f = 0 then [] else 46 # frac_digits 20 f))"

section \<open>Word keys\<close>

definition createWordKey :: "jsstring \<Rightarrow> jsstring \<Rightarrow> rat \<Rightarrow> jsstring" where
  "createWordKey g b l =
     (let cleanGreek = toLowerCase (filter greek_kept g);
          cleanBulgarian = toLowerCase (filter bulgarian_kept b)
      in Number_toString l @ [95] @ cleanGreek @ [95] @ cleanBulgarian)"

section \<open>The progress store\<close>

text \<open>
  A word pair as the server sends it.  The lesson is a number; \<open>None\<close> stands for a
  pair without one (\<^verbatim>\<open>undefined\<close> or \<^verbatim>\<open>null\<close>).  A ledger entry is the word pair with
  the direction, the flag and the time stamp that \<^verbatim>\<open>saveQuizProgress\<close> and
  \<^verbatim>\<open>markWordCorrect\<close> add.
\<close>

record wordPair =
  greek :: jsstring
  bulgarian :: jsstring
  lesson :: "rat option"

record entry = wordPair +
  direction :: jsstring
  correct :: bool
  lastSeen :: jsstring

text \<open>
  The object \<^verbatim>\<open>wordProgress\<close>.  A JavaScript object holds each key once and lists its
  keys in the order of their insertion (no key that the program writes is an array
  index: each has underscores).  The list stands for the object that \<open>map_of\<close> reads
  from it: \<open>obj_get\<close> is \<^verbatim>\<open>obj[key]\<close>, \<open>obj_set\<close> the assignment to it, \<open>obj_delete\<close> is
  \<^verbatim>\<open>delete obj[key]\<close>, and \<open>own_keys\<close>, each key once, is what \<^verbatim>\<open>for (key in obj)\<close>
  runs through.
\<close>

type_synonym ledger = "(jsstring \<times> entry) list"

definition obj_get :: "ledger \<Rightarrow> jsstring \<Rightarrow> entry option" where
  "obj_get l k = map_of l k"

definition obj_set :: "jsstring \<Rightarrow> entry \<Rightarrow> ledger \<Rightarrow> ledger" where
  "obj_set k e l = AList.update k e l"

definition obj_delete :: "jsstring \<Rightarrow> ledger \<Rightarrow> ledger" where
  "obj_delete k l = AList.delete k l"

definition own_keys :: "ledger \<Rightarrow> jsstring list" where
  "own_keys l = remdups (map fst l)"

text \<open>
  What \<^verbatim>\<open>localStorage.getItem(STORAGE_KEY)\<close> and \<^verbatim>\<open>JSON.parse\<close> make of the store.  The
  text under the key is told apart by what the two calls do with it: there is no item;
  the item is the empty string; \<^verbatim>\<open>JSON.parse\<close> throws on it; or \<^verbatim>\<open>JSON.parse\<close> returns
  \<^verbatim>\<open>null\<close>, a number, string or boolean, an array, or an object.  Of an object only the
  property \<^verbatim>\<open>wordProgress\<close> is ever read: \<open>None\<close> when it is absent or falsy, the ledger
  otherwise (the property is taken to hold entries, as every writer of the key leaves it).
\<close>

datatype stored =
    NoItem
  | EmptyText
  | Unparsable
  | JsonNull
  | JsonPrimitive
  | JsonArray
  | JsonObject "ledger option"

text \<open>
  The value that \<^verbatim>\<open>getProgressData\<close> hands to its callers: a number, string or boolean,
  which has no property \<^verbatim>\<open>wordProgress\<close>; an array that has been given the property; or
  an object with it.
\<close>

datatype progress = Prim | Arr ledger | Obj ledger

datatype exn = SyntaxError | TypeError

definition default_progress :: progress where
  \<comment> \<open>\<^verbatim>\<open>{ wordProgress: {}, version: 1 }\<close>\<close>
  "default_progress = Obj []"

text \<open>
  The body of the \<^verbatim>\<open>try\<close> block.  The file is a classic script without a
  \<^verbatim>\<open>"use strict"\<close> directive (its functions are called from inline \<^verbatim>\<open>onclick\<close>
  attributes), so the assignment \<^verbatim>\<open>parsed.wordProgress = {}\<close> to a number, string or
  boolean does nothing, and the primitive value is returned as it is.
\<close>

fun getProgressData_try :: "stored \<Rightarrow> exn + progress" where
  "getProgressData_try NoItem = Inr default_progress"
| "getProgressData_try EmptyText = Inr default_progress"
| "getProgressData_try Unparsable = Inl SyntaxError"
| "getProgressData_try JsonNull = Inl TypeError"
| "getProgressData_try JsonPrimitive = Inr Prim"
| "getProgressData_try JsonArray = Inr (Arr [])"
| "getProgressData_try (JsonObject w) = Inr (Obj (case w of None \<Rightarrow> [] | Some l \<Rightarrow> l))"

definition getProgressData :: "stored \<Rightarrow> progress" where
  "getProgressData st = (case getProgressData_try st of Inl e \<Rightarrow> default_progress | Inr p \<Rightarrow> p)"

fun wordProgress :: "progress \<Rightarrow> ledger option" where
  \<comment> \<open>\<^verbatim>\<open>progress.wordProgress\<close>; \<open>None\<close> is \<^verbatim>\<open>undefined\<close>\<close>
  "wordProgress Prim = None"
| "wordProgress (Arr l) = Some l"
| "wordProgress (Obj l) = Some l"

text \<open>
  \<^verbatim>\<open>saveProgressData\<close>: nothing is written for a value without \<^verbatim>\<open>wordProgress\<close>;
  \<^verbatim>\<open>JSON.stringify\<close> of an array leaves its named properties out.  The store is taken to
  accept the write (\<^verbatim>\<open>setItem\<close> may throw when the quota is used up; the function then
  logs the error and writes nothing).
\<close>

fun saveProgressData :: "progress \<Rightarrow> stored \<Rightarrow> stored" where
  "saveProgressData Prim st = st"
| "saveProgressData (Arr l) st = JsonArray"
| "saveProgressData (Obj l) st = JsonObject (Some l)"

fun set_entry :: "jsstring \<Rightarrow> entry \<Rightarrow> progress \<Rightarrow> exn + progress" where
  \<comment> \<open>\<^verbatim>\<open>progress.wordProgress[key] = entry\<close>\<close>
  "set_entry k e Prim = Inl TypeError"
| "set_entry k e (Arr l) = Inr (Arr (obj_set k e l))"
| "set_entry k e (Obj l) = Inr (Obj (obj_set k e l))"

fun map_wordProgress :: "(ledger \<Rightarrow> ledger) \<Rightarrow> progress \<Rightarrow> progress" where
  "map_wordProgress f Prim = Prim"
| "map_wordProgress f (Arr l) = Arr (f l)"
| "map_wordProgress f (Obj l) = Obj (f l)"

definition mastered :: "wordPair \<Rightarrow> jsstring \<Rightarrow> jsstring \<Rightarrow> entry" where
  \<comment> \<open>the object literal that \<^verbatim>\<open>saveQuizProgress\<close> stores for a word pair\<close>
  "mastered wp dir now =
     \<lparr>greek = greek wp, bulgarian = bulgarian wp, lesson = lesson wp,
      direction = dir, correct = True, lastSeen = now\<rparr>"

definition progressKey :: "jsstring \<Rightarrow> jsstring \<Rightarrow> jsstring \<Rightarrow> rat \<Rightarrow> jsstring" where
  \<comment> \<open>the template \<^verbatim>\<open>${direction}_${lesson}_${wordKey}\<close>\<close>
  "progressKey dir g b l = dir @ [95] @ Number_toString l @ [95] @ createWordKey g b l"

definition markWordCorrect ::
  "jsstring \<Rightarrow> jsstring \<Rightarrow> rat \<Rightarrow> jsstring \<Rightarrow> jsstring \<Rightarrow> stored \<Rightarrow> exn + stored" where
  "markWordCorrect g b l dir now st =
     (let progress = getProgressData st;
          e = \<lparr>greek = g, bulgarian = b, lesson = Some l, direction = dir, correct = True, lastSeen = now\<rparr>
      in case set_entry (progressKey dir g b l) e progress of
           Inl x \<Rightarrow> Inl x
         | Inr progress' \<Rightarrow> Inr (saveProgressData progress' st))"

definition isWordCorrect :: "jsstring \<Rightarrow> jsstring \<Rightarrow> rat \<Rightarrow> jsstring \<Rightarrow> stored \<Rightarrow> exn + bool" where
  \<comment> \<open>the optional chaining guards the entry, not \<^verbatim>\<open>progress.wordProgress\<close>\<close>
  "isWordCorrect g b l dir st =
     (case wordProgress (getProgressData st) of
        None \<Rightarrow> Inl TypeError
      | Some w \<Rightarrow> Inr (case obj_get w (progressKey dir g b l) of None \<Rightarrow> False | Some e \<Rightarrow> correct e))"

definition lessons_include :: "rat list \<Rightarrow> rat option \<Rightarrow> bool" where
  \<comment> \<open>\<^verbatim>\<open>lessons.includes(entry.lesson)\<close> for an array of numbers\<close>
  "lessons_include lessons x = (case x of None \<Rightarrow> False | Some l \<Rightarrow> l \<in> set lessons)"

definition to_reset :: "rat list \<Rightarrow> jsstring \<Rightarrow> entry \<Rightarrow> bool" where
  "to_reset lessons dir e \<longleftrightarrow> lessons_include lessons (lesson e) \<and> direction e = dir"

definition keysToDelete :: "rat list \<Rightarrow> jsstring \<Rightarrow> ledger \<Rightarrow> jsstring list" where
  "keysToDelete lessons dir w =
     filter (\<lambda>key. case obj_get w key of None \<Rightarrow> False | Some e \<Rightarrow> to_reset lessons dir e) (own_keys w)"

definition resetProgress :: "rat list \<Rightarrow> jsstring \<Rightarrow> stored \<Rightarrow> stored" where
  "resetProgress lessons dir st =
     (let progress = getProgressData st;
          progress' = map_wordProgress (\<lambda>w. fold obj_delete (keysToDelete lessons dir w) w) progress
      in saveProgressData progress' st)"

definition is_mastered :: "rat list \<Rightarrow> jsstring \<Rightarrow> entry \<Rightarrow> bool" where
  "is_mastered lessons dir e \<longleftrightarrow> correct e \<and> direction e = dir \<and> lessons_include lessons (lesson e)"

definition getCorrectWordsForLessons :: "rat list \<Rightarrow> jsstring \<Rightarrow> stored \<Rightarrow> wordPair list" where
  "getCorrectWordsForLessons lessons dir st =
     (case wordProgress (getProgressData st) of
        None \<Rightarrow> []
      | Some w \<Rightarrow>
          concat (map (\<lambda>key. case obj_get w key of
                               None \<Rightarrow> []
                             | Some e \<Rightarrow> if is_mastered lessons dir e
                                        then [\<lparr>greek = greek e, bulgarian = bulgarian e, lesson = lesson e\<rparr>]
                                        else [])
                      (own_keys w)))"

definition ledger_of :: "stored \<Rightarrow> ledger" where
  \<comment> \<open>the mastery ledger that the program reads from the store\<close>
  "ledger_of st = (case wordProgress (getProgressData st) of None \<Rightarrow> [] | Some w \<Rightarrow> w)"

section \<open>Numbers\<close>

text \<open>
  JavaScript numbers are binary64 values, and \<^verbatim>\<open>/\<close> and \<^verbatim>\<open>*\<close> round their exact result to
  the nearest one, ties to the even significand.  A finite binary64 value is a rational
  number; \<open>fl\<close> rounds a rational number to 53 significant bits (the exponent range of
  binary64 is not modelled: the quotients of counts are far inside it).  \<open>scale_down\<close>
  and \<open>scale_up\<close> bring a positive number into \<open>[1, 2)\<close> and count the halvings.
\<close>

function scale_down :: "rat \<Rightarrow> int \<Rightarrow> rat \<times> int" where
  "scale_down q e = (if 2 \<le> q then scale_down (q / 2) (e + 1) else (q, e))"
  by pat_completeness auto
termination
proof (relation "measure (\<lambda>(q, e). nat \<lfloor>q\<rfloor>)")
  show "wf (measure (\<lambda>(q :: rat, e :: int). nat \<lfloor>q\<rfloor>))" by simp
next
  fix q :: rat and e :: int
  assume "2 \<le> q"
  then have "q / 2 < of_int \<lfloor>q\<rfloor>" by linarith
  then have "\<lfloor>q / 2\<rfloor> < \<lfloor>q\<rfloor>" by (simp add: floor_less_iff)
  moreover have "0 < \<lfloor>q\<rfloor>" using \<open>2 \<le> q\<close> by linarith
  ultimately show "((q / 2, e + 1), (q, e)) \<in> measure (\<lambda>(q, e). nat \<lfloor>q\<rfloor>)" by simp
qed

function scale_up :: "rat \<Rightarrow> int \<Rightarrow> rat \<times> int" where
  "scale_up q e = (if 0 < q \<and> q < 1 then scale_up (q * 2) (e - 1) else (q, e))"
  by pat_completeness auto
termination
proof (relation "measure (\<lambda>(q, e). nat \<lfloor>1 / q\<rfloor>)")
  show "wf (measure (\<lambda>(q :: rat, e :: int). nat \<lfloor>1 / q\<rfloor>))" by simp
next
  fix q :: rat and e :: int
  assume a: "0 < q \<and> q < 1"
  define x where "x = 1 / q"
  have one: "1 \<le> x" using a by (simp add: x_def)
  then have pos: "1 \<le> \<lfloor>x\<rfloor>" by (simp add: le_floor_iff)
  then have "(1 :: rat) \<le> of_int \<lfloor>x\<rfloor>" by simp
  moreover have "x < of_int \<lfloor>x\<rfloor> + 1" by linarith
  ultimately have "x / 2 < of_int \<lfloor>x\<rfloor>" by linarith
  then have half: "\<lfloor>x / 2\<rfloor> < \<lfloor>x\<rfloor>" by (simp add: floor_less_iff)
  have e1: "1 / (q * 2) = x / 2" by (simp add: x_def)
  have e2: "1 / q = x" by (simp add: x_def)
  have "nat \<lfloor>1 / (q * 2)\<rfloor> < nat \<lfloor>1 / q\<rfloor>"
    unfolding e1 e2 using half pos by linarith
  then show "((q * 2, e - 1), (q, e)) \<in> measure (\<lambda>(q, e). nat \<lfloor>1 / q\<rfloor>)" by simp
qed

declare scale_down.simps [simp del] scale_up.simps [simp del]

definition round_even :: "rat \<Rightarrow> int" where
  "round_even q =
     (let f = \<lfloor>q\<rfloor>; r = q - of_int f
      in if r < 1 / 2 then f else if 1 / 2 < r then f + 1 else if even f then f else f + 1)"

definition pow2 :: "int \<Rightarrow> rat" where
  "pow2 e = (if 0 \<le> e then 2 ^ nat e else 1 / 2 ^ nat (- e))"

definition fl :: "rat \<Rightarrow> rat" where
  "fl q =
     (if q = 0 then 0
      else let (s, e) = (if 1 \<le> \<bar>q\<bar> then scale_down \<bar>q\<bar> 0 else scale_up \<bar>q\<bar> 0)
           in sgn q * of_int (round_even (s * 2 ^ 52)) * pow2 (e - 52))"

definition Math_round :: "rat \<Rightarrow> int" where
  \<comment> \<open>the nearest integer, a tie goes up\<close>
  "Math_round x = \<lfloor>x + 1 / 2\<rfloor>"

text \<open>
  A division by zero does not throw in JavaScript, it gives \<^verbatim>\<open>Infinity\<close> or \<^verbatim>\<open>NaN\<close>.
  The model makes it a fault of its own, so that a function that never divides by zero
  is one that never returns the fault.
\<close>

datatype arith_fault = DivisionByZero

definition js_divide :: "rat \<Rightarrow> rat \<Rightarrow> arith_fault + rat" where
  "js_divide x y = (if y = 0 then Inl DivisionByZero else Inr (fl (x / y)))"

section \<open>Progress statistics\<close>

record stats =
  correctCount :: nat
  totalWords :: rat
  percentage :: int

definition counts_as_correct :: "rat list \<Rightarrow> jsstring \<Rightarrow> entry \<Rightarrow> bool" where
  "counts_as_correct lessons dir e \<longleftrightarrow>
     lessons_include lessons (lesson e) \<and> direction e = dir \<and> correct e"

definition getProgressStats :: "rat list \<Rightarrow> jsstring \<Rightarrow> rat \<Rightarrow> stored \<Rightarrow> arith_fault + stats" where
  "getProgressStats lessons dir tw st =
     (let progress = getProgressData st;
          n = (case wordProgress progress of
                 None \<Rightarrow> 0
               | Some w \<Rightarrow>
                   fold (\<lambda>key c. case obj_get w key of
                                   None \<Rightarrow> c
                                 | Some e \<Rightarrow> if counts_as_correct lessons dir e then c + 1 else c)
                        (own_keys w) 0)
      in if 0 < tw
         then (case js_divide (of_nat n) tw of
                 Inl f \<Rightarrow> Inl f
               | Inr q \<Rightarrow> Inr \<lparr>correctCount = n, totalWords = tw, percentage = Math_round (fl (q * 100))\<rparr>)
         else Inr \<lparr>correctCount = n, totalWords = tw, percentage = 0\<rparr>)"

text \<open>
  What it means for two spellings to differ only in case or in punctuation, in the
  words of the specification: the code units that the class keeps agree up to the case
  of the letter, and the code units that the class drops (punctuation, blanks, and also
  every letter with a diacritic mark) may come and go.  Two code units agree up to case
  when they are equal or one is a capital and the other a small form of it; the capital
  sigma (U+03A3) has two small forms, the sigma (U+03C3) and the final sigma (U+03C2).
\<close>

definition small_forms :: "nat \<Rightarrow> nat list" where
  "small_forms c = (if c = 931 then [963, 962] else if is_upper c then [c + 32] else [])"

definition case_variant :: "nat \<Rightarrow> nat \<Rightarrow> bool" where
  "case_variant c d \<longleftrightarrow> c = d \<or> d \<in> set (small_forms c) \<or> c \<in> set (small_forms d)"

inductive differ_only :: "(nat \<Rightarrow> bool) \<Rightarrow> jsstring \<Rightarrow> jsstring \<Rightarrow> bool" for keep where
  stop: "differ_only keep [] []"
| extra_left: "\<not> keep c \<Longrightarrow> differ_only keep xs ys \<Longrightarrow> differ_only keep (c # xs) ys"
| extra_right: "\<not> keep d \<Longrightarrow> differ_only keep xs ys \<Longrightarrow> differ_only keep xs (d # ys)"
| letter: "keep c \<Longrightarrow> keep d \<Longrightarrow> case_variant c d \<Longrightarrow> differ_only keep xs ys
            \<Longrightarrow> differ_only keep (c # xs) (d # ys)"

text \<open>
  Greek writes the final sigma at the end of a word and the sigma elsewhere.  In a
  string of kept code units a place is at the end of a word when a letter stands before
  it and none after it; \<open>prev\<close> says whether a letter stands before the place, \<open>cs\<close> is
  what follows it.  Two strings of kept code units that agree up to case write their
  sigmas alike when, wherever one has a capital sigma and the other a small one, the
  small one is the form that belongs to the place.
\<close>

definition at_word_end :: "bool \<Rightarrow> jsstring \<Rightarrow> bool" where
  "at_word_end prev cs \<longleftrightarrow> prev \<and> (case cs of [] \<Rightarrow> True | d # _ \<Rightarrow> \<not> cased d)"

definition sigma_of_place :: "bool \<Rightarrow> jsstring \<Rightarrow> nat" where
  "sigma_of_place prev cs = (if at_word_end prev cs then 962 else 963)"

fun sigmas_alike :: "bool \<Rightarrow> jsstring \<Rightarrow> jsstring \<Rightarrow> bool" where
  "sigmas_alike prev (c # cs) (d # ds) \<longleftrightarrow>
     (if c = 931 \<and> d \<noteq> 931 then d = sigma_of_place prev cs
      else if d = 931 \<and> c \<noteq> 931 then c = sigma_of_place prev ds
      else True)
     \<and> sigmas_alike (cased c) cs ds"
| "sigmas_alike prev [] ds \<longleftrightarrow> True"
| "sigmas_alike prev (c # cs) [] \<longleftrightarrow> True"

definition sigma_by_place :: "jsstring \<Rightarrow> jsstring \<Rightarrow> bool" where
  \<comment> \<open>the capital sigmas of two Greek spellings stand for the small sigmas of their places\<close>
  "sigma_by_place g1 g2 \<longleftrightarrow> sigmas_alike False (filter greek_kept g1) (filter greek_kept g2)"

section \<open>The session state\<close>

record question =
  prompt :: jsstring
  prompt_label :: jsstring

text \<open>
  The result of an answer as the server returns it; \<open>ans_correct\<close> is its property
  \<^verbatim>\<open>correct\<close>.
\<close>

record answerResult =
  ans_correct :: bool
  partial_credit :: bool

datatype session_mode = Training | Exam

text \<open>The object \<^verbatim>\<open>state\<close>; a slot of \<open>answers\<close> is \<open>None\<close> when it holds \<^verbatim>\<open>null\<close>.\<close>

record state =
  sessionId :: "jsstring option"
  questions :: "question list"
  currentIndex :: nat
  answers :: "answerResult option list"
  mode :: session_mode
  trainingCompleted :: bool
  wordPairs :: "wordPair list"
  wasTrainingSession :: bool
  timePerQuestion :: int
  timeRemaining :: int
  timerInterval :: "nat option"
  selectedLessons :: "rat list"

section \<open>Saving the progress of a quiz\<close>

definition wasFullyCorrect :: "answerResult \<Rightarrow> bool" where
  "wasFullyCorrect a \<longleftrightarrow> ans_correct a = True \<and> \<not> partial_credit a"

definition answer_at :: "answerResult option list \<Rightarrow> nat \<Rightarrow> answerResult option" where
  \<comment> \<open>\<^verbatim>\<open>state.answers[index]\<close>: \<^verbatim>\<open>undefined\<close> past the end, \<^verbatim>\<open>null\<close> in an empty slot\<close>
  "answer_at as i = (if i < length as then as ! i else None)"

text \<open>
  The callback of \<^verbatim>\<open>state.wordPairs.forEach\<close>, run from index \<open>i\<close> on.  \<open>now i\<close> is the
  time stamp that \<^verbatim>\<open>new Date().toISOString()\<close> gives while the pair at \<open>i\<close> is handled.
\<close>

fun save_each ::
  "jsstring \<Rightarrow> (nat \<Rightarrow> jsstring) \<Rightarrow> answerResult option list \<Rightarrow> nat \<Rightarrow> wordPair list
    \<Rightarrow> progress \<Rightarrow> exn + progress" where
  "save_each dir now as i [] p = Inr p"
| "save_each dir now as i (wp # wps) p =
     (case lesson wp of
        None \<Rightarrow> save_each dir now as (i + 1) wps p
      | Some l \<Rightarrow>
          if l = 0 then save_each dir now as (i + 1) wps p
          else (case answer_at as i of
                  None \<Rightarrow> save_each dir now as (i + 1) wps p
                | Some a \<Rightarrow>
                    if wasFullyCorrect a
                    then (case set_entry (progressKey dir (greek wp) (bulgarian wp) l)
                                         (mastered wp dir (now i)) p of
                            Inl x \<Rightarrow> Inl x
                          | Inr p' \<Rightarrow> save_each dir now as (i + 1) wps p')
                    else save_each dir now as (i + 1) wps p))"

text \<open>
  After the loop the progress is saved, and the last line of the function logs
  \<^verbatim>\<open>Object.keys(progress.wordProgress).length\<close>: that is a \<^verbatim>\<open>TypeError\<close> for a value
  without \<^verbatim>\<open>wordProgress\<close>, also when the loop has written nothing.  (For such a value
  \<^verbatim>\<open>saveProgressData\<close> has written nothing either, so the store is as it was.)
\<close>

definition saveQuizProgress ::
  "jsstring \<Rightarrow> (nat \<Rightarrow> jsstring) \<Rightarrow> 'a state_scheme \<Rightarrow> stored \<Rightarrow> exn + stored" where
  "saveQuizProgress dir now s st =
     (case save_each dir now (answers s) 0 (wordPairs s) (getProgressData st) of
        Inl x \<Rightarrow> Inl x
      | Inr p \<Rightarrow>
          (let st' = saveProgressData p st
           in case wordProgress p of
                None \<Rightarrow> Inl TypeError
              | Some w \<Rightarrow> Inr st'))"

section \<open>The page\<close>

text \<open>
  What the browser holds besides \<^verbatim>\<open>state\<close>: the intervals that \<^verbatim>\<open>setInterval\<close> has
  started and \<^verbatim>\<open>clearInterval\<close> has not ended, the next interval id (ids are positive,
  so an id is truthy), the text of the answer field, the \<^verbatim>\<open>onclick\<close> handler of the
  submit button, the screen that is shown, whether the retake section is shown, and the
  store.  Two fields only record what happened: \<open>posted\<close> lists the answers sent to the
  server, \<open>timeouts\<close> counts the calls of \<^verbatim>\<open>handleTimeout\<close>.
\<close>

datatype screen = SetupScreen | TrainingScreen | QuizScreen | SummaryScreen

datatype handler = SubmitAnswer | NextQuestion

record request =
  question_index :: nat
  req_answer :: jsstring

record page = state +
  intervals :: "nat list"
  next_interval :: nat
  answerInput :: jsstring
  submitBtn_onclick :: handler
  activeScreen :: screen
  retakeSection :: bool
  localStorage :: stored
  posted :: "request list"
  timeouts :: nat

definition clearInterval :: "nat \<Rightarrow> page \<Rightarrow> page" where
  "clearInterval i p = p\<lparr>intervals := removeAll i (intervals p)\<rparr>"

definition startTimer :: "page \<Rightarrow> page" where
  "startTimer p =
     (let p1 = (case timerInterval p of None \<Rightarrow> p | Some i \<Rightarrow> clearInterval i p);
          p2 = p1\<lparr>timeRemaining := timePerQuestion p1\<rparr>
      in p2\<lparr>timerInterval := Some (next_interval p2),
            intervals := intervals p2 @ [next_interval p2],
            next_interval := next_interval p2 + 1\<rparr>)"

definition stopTimer :: "page \<Rightarrow> page" where
  "stopTimer p =
     (case timerInterval p of
        None \<Rightarrow> p
      | Some i \<Rightarrow> (clearInterval i p)\<lparr>timerInterval := None\<rparr>)"

definition is_space :: "nat \<Rightarrow> bool" where
  \<comment> \<open>white space and line terminators, as \<^verbatim>\<open>String.prototype.trim\<close> takes them\<close>
  "is_space c \<longleftrightarrow> c \<in> {9, 10, 11, 12, 13, 32, 160, 5760, 8232, 8233, 8239, 8287, 12288, 65279}
     \<or> (8192 \<le> c \<and> c \<le> 8202)"

definition trim :: "jsstring \<Rightarrow> jsstring" where
  "trim s = rev (dropWhile is_space (rev (dropWhile is_space s)))"

text \<open>
  \<^verbatim>\<open>submitAnswer\<close> up to its \<^verbatim>\<open>await\<close>: the request is sent and the function gives the
  control back.  What it does once the response is there is \<open>answer_arrived\<close>.
\<close>

definition submitAnswer :: "bool \<Rightarrow> page \<Rightarrow> page" where
  "submitAnswer isTimeout p =
     (let p1 = stopTimer p;
          a = (if isTimeout then [] else trim (answerInput p1))
      in if a = [] \<and> \<not> isTimeout then startTimer p1
         else p1\<lparr>posted := posted p1 @ [\<lparr>question_index = currentIndex p1, req_answer = a\<rparr>]\<rparr>)"

definition answer_arrived :: "answerResult \<Rightarrow> page \<Rightarrow> page" where
  "answer_arrived result p = p\<lparr>answers := answers p @ [Some result], submitBtn_onclick := NextQuestion\<rparr>"

definition handleTimeout :: "page \<Rightarrow> page" where
  "handleTimeout p = submitAnswer True (stopTimer (p\<lparr>timeouts := timeouts p + 1\<rparr>))"

definition interval_callback :: "page \<Rightarrow> page" where
  \<comment> \<open>the arrow function that \<^verbatim>\<open>startTimer\<close> hands to \<^verbatim>\<open>setInterval\<close>\<close>
  "interval_callback p =
     (let p1 = p\<lparr>timeRemaining := timeRemaining p - 1\<rparr>
      in if timeRemaining p1 \<le> 0 then handleTimeout p1 else p1)"

definition fire :: "nat \<Rightarrow> page \<Rightarrow> page" where
  \<comment> \<open>a second has passed for the interval \<open>i\<close>: its callback runs if the interval is live\<close>
  "fire i p = (if i \<in> set (intervals p) then interval_callback p else p)"

text \<open>
  \<^verbatim>\<open>displayQuestion\<close> reads \<^verbatim>\<open>question.prompt_label\<close> before it touches the answer field,
  the handler or the timer; without a question at the index that is a \<^verbatim>\<open>TypeError\<close>,
  which \<^verbatim>\<open>startSession\<close> and \<^verbatim>\<open>startQuizAfterTraining\<close> catch, and nothing of the page
  as modelled here has changed.
\<close>

definition displayQuestion :: "page \<Rightarrow> page" where
  "displayQuestion p =
     (if currentIndex p < length (questions p)
      then startTimer (p\<lparr>answerInput := [], submitBtn_onclick := SubmitAnswer\<rparr>)
      else p)"

definition nextQuestion :: "page \<Rightarrow> page" where
  \<comment> \<open>past the last question \<^verbatim>\<open>showSummary\<close> asks the server for the summary\<close>
  "nextQuestion p =
     (let p1 = p\<lparr>currentIndex := currentIndex p + 1\<rparr>
      in if currentIndex p1 < length (questions p1) then displayQuestion p1 else p1)"

text \<open>
  \<^verbatim>\<open>showSummary\<close> once the summary is there: the progress is saved, the retake section
  is shown or hidden, the summary screen comes up.  An exception of \<^verbatim>\<open>saveQuizProgress\<close>
  ends the \<^verbatim>\<open>try\<close> block at once.
\<close>

definition summary_arrived :: "jsstring \<Rightarrow> (nat \<Rightarrow> jsstring) \<Rightarrow> rat \<Rightarrow> page \<Rightarrow> page" where
  "summary_arrived dir now score_percentage p =
     (case saveQuizProgress dir now p (localStorage p) of
        Inl x \<Rightarrow> p
      | Inr st \<Rightarrow>
          p\<lparr>localStorage := st,
            retakeSection := (wasTrainingSession p \<and> score_percentage < 100 \<and> length (wordPairs p) > 0),
            activeScreen := SummaryScreen\<rparr>)"

definition restartQuiz :: "page \<Rightarrow> page" where
  "restartQuiz p =
     (stopTimer p)\<lparr>activeScreen := SetupScreen, sessionId := None, questions := [], currentIndex := 0,
       answers := [], trainingCompleted := False, mode := Exam, wordPairs := []\<rparr>"

record quiz_response =
  session_id :: jsstring
  r_questions :: "question list"
  word_pairs :: "wordPair list"
  time_per_question :: int

definition session_arrived :: "session_mode \<Rightarrow> quiz_response \<Rightarrow> page \<Rightarrow> page" where
  \<comment> \<open>\<^verbatim>\<open>startSession\<close> after the response of the server\<close>
  "session_arrived sessionMode r p =
     (let p1 = p\<lparr>sessionId := Some (session_id r), questions := r_questions r,
                 wordPairs := word_pairs r, timePerQuestion := time_per_question r,
                 currentIndex := 0, answers := [], trainingCompleted := False,
                 wasTrainingSession := (sessionMode = Training)\<rparr>
      in if sessionMode = Training
         then p1\<lparr>mode := Training, activeScreen := TrainingScreen\<rparr>
         else displayQuestion (p1\<lparr>mode := Exam, activeScreen := QuizScreen\<rparr>))"

definition startExam :: "page \<Rightarrow> page" where
  "startExam p = p\<lparr>trainingCompleted := True, currentIndex := 0, answers := []\<rparr>"

definition nextTrainingWord :: "page \<Rightarrow> page" where
  "nextTrainingWord p =
     (let p1 = p\<lparr>currentIndex := currentIndex p + 1\<rparr>
      in if currentIndex p1 < length (questions p1) then p1 else startExam p1)"

definition exam_arrived :: "quiz_response \<Rightarrow> page \<Rightarrow> page" where
  \<comment> \<open>\<^verbatim>\<open>startQuizAfterTraining\<close> after the response of the server\<close>
  "exam_arrived r p =
     displayQuestion (p\<lparr>sessionId := Some (session_id r), questions := r_questions r,
        wordPairs := word_pairs r, timePerQuestion := time_per_question r,
        currentIndex := 0, answers := [], activeScreen := QuizScreen\<rparr>)"

definition quiz_arrived :: "quiz_response \<Rightarrow> page \<Rightarrow> page" where
  \<comment> \<open>\<^verbatim>\<open>startQuiz\<close>, which the file calls legacy, after the response of the server\<close>
  "quiz_arrived r p =
     displayQuestion (p\<lparr>sessionId := Some (session_id r), questions := r_questions r,
        currentIndex := 0, answers := [], activeScreen := QuizScreen\<rparr>)"

definition startSession :: "int \<Rightarrow> page \<Rightarrow> page" where
  \<comment> \<open>\<^verbatim>\<open>startSession\<close> up to its request, when the form is valid: the time limit is stored\<close>
  "startSession t p = p\<lparr>timePerQuestion := t\<rparr>"

definition retakeExam :: "page \<Rightarrow> page" where
  "retakeExam p = p\<lparr>answers := replicate (length (wordPairs p)) None, wasTrainingSession := True\<rparr>"

text \<open>
  What can happen to the page, one event at a time: a second passes for an interval,
  the user types, clicks the submit button (or presses Enter on the quiz screen), a
  response of the server arrives, the user starts a session, moves on in the training,
  skips to the exam, asks for a retake or restarts.
\<close>

datatype event =
    Tick nat
  | Input jsstring
  | ClickSubmit
  | AnswerArrives answerResult
  | SummaryArrives jsstring "nat \<Rightarrow> jsstring" rat
  | SessionArrives session_mode quiz_response
  | ExamArrives quiz_response
  | QuizArrives quiz_response
  | ClickStart int
  | ClickNextWord
  | ClickSkipToExam
  | ClickRetake
  | ClickRestart

fun step :: "event \<Rightarrow> page \<Rightarrow> page" where
  "step (Tick i) p = fire i p"
| "step (Input s) p = p\<lparr>answerInput := s\<rparr>"
| "step ClickSubmit p =
     (case submitBtn_onclick p of SubmitAnswer \<Rightarrow> submitAnswer False p | NextQuestion \<Rightarrow> nextQuestion p)"
| "step (AnswerArrives r) p = answer_arrived r p"
| "step (SummaryArrives dir now score_percentage) p = summary_arrived dir now score_percentage p"
| "step (SessionArrives m r) p = session_arrived m r p"
| "step (ExamArrives r) p = exam_arrived r p"
| "step (QuizArrives r) p = quiz_arrived r p"
| "step (ClickStart t) p = startSession t p"
| "step ClickNextWord p = nextTrainingWord p"
| "step ClickSkipToExam p = startExam p"
| "step ClickRetake p = retakeExam p"
| "step ClickRestart p = restartQuiz p"

definition run :: "event list \<Rightarrow> page \<Rightarrow> page" where
  "run es p = fold step es p"

definition loaded :: "stored \<Rightarrow> page" where
  \<comment> \<open>the page when the script has been loaded\<close>
  "loaded st =
     \<lparr>sessionId = None, questions = [], currentIndex = 0, answers = [], mode = Exam,
      trainingCompleted = False, wordPairs = [], wasTrainingSession = False,
      timePerQuestion = 60, timeRemaining = 60, timerInterval = None, selectedLessons = [],
      intervals = [], next_interval = 1, answerInput = [], submitBtn_onclick = SubmitAnswer,
      activeScreen = SetupScreen, retakeSection = False, localStorage = st, posted = [],
      timeouts = 0\<rparr>"

section \<open>The words of the specification\<close>

text \<open>
  The pair at index \<open>i\<close> of a session is recorded at summary time when it has a lesson
  (a number other than 0) and the answer at \<open>i\<close> has the full verdict.  Its ledger key
  is \<open>pair_key\<close>; a pair without a lesson has none.
\<close>

definition full_verdict :: "'a state_scheme \<Rightarrow> nat \<Rightarrow> bool" where
  "full_verdict s i \<longleftrightarrow>
     (\<exists>a. i < length (answers s) \<and> answers s ! i = Some a \<and> ans_correct a \<and> \<not> partial_credit a)"

definition has_lesson :: "wordPair \<Rightarrow> bool" where
  "has_lesson wp \<longleftrightarrow> (\<exists>l. lesson wp = Some l \<and> l \<noteq> 0)"

definition recorded :: "'a state_scheme \<Rightarrow> nat \<Rightarrow> bool" where
  "recorded s i \<longleftrightarrow> i < length (wordPairs s) \<and> has_lesson (wordPairs s ! i) \<and> full_verdict s i"

definition pair_key :: "jsstring \<Rightarrow> wordPair \<Rightarrow> jsstring option" where
  "pair_key dir wp =
     (case lesson wp of None \<Rightarrow> None | Some l \<Rightarrow> Some (progressKey dir (greek wp) (bulgarian wp) l))"

definition keeps_ledger :: "stored \<Rightarrow> bool" where
  \<comment> \<open>the store is empty, unreadable or holds an object: what is saved can be read again\<close>
  "keeps_ledger st \<longleftrightarrow> st \<noteq> JsonPrimitive \<and> st \<noteq> JsonArray"

text \<open>The assignments that the loop of \<^verbatim>\<open>saveQuizProgress\<close> makes, in their order.\<close>

fun writes ::
  "jsstring \<Rightarrow> (nat \<Rightarrow> jsstring) \<Rightarrow> answerResult option list \<Rightarrow> nat \<Rightarrow> wordPair list
    \<Rightarrow> (jsstring \<times> entry) list" where
  "writes dir now as i [] = []"
| "writes dir now as i (wp # wps) =
     (case lesson wp of
        None \<Rightarrow> []
      | Some l \<Rightarrow>
          if l \<noteq> 0 \<and> (\<exists>a. answer_at as i = Some a \<and> wasFullyCorrect a)
          then [(progressKey dir (greek wp) (bulgarian wp) l, mastered wp dir (now i))]
          else [])
     @ writes dir now as (i + 1) wps"

definition saved_ledger :: "jsstring \<Rightarrow> (nat \<Rightarrow> jsstring) \<Rightarrow> 'a state_scheme \<Rightarrow> stored \<Rightarrow> ledger" where
  \<comment> \<open>the ledger of the store with the assignments of the loop made\<close>
  "saved_ledger dir now s st =
     fold (\<lambda>(k, e). obj_set k e) (writes dir now (answers s) 0 (wordPairs s)) (ledger_of st)"

definition only_with_key :: "jsstring \<Rightarrow> 'a state_scheme \<Rightarrow> nat \<Rightarrow> bool" where
  \<comment> \<open>no other recorded pair of the session has the key of the pair at \<open>i\<close>\<close>
  "only_with_key dir s i \<longleftrightarrow>
     (\<forall>j. recorded s j \<and> pair_key dir (wordPairs s ! j) = pair_key dir (wordPairs s ! i) \<longrightarrow> j = i)"

text \<open>
  The attempts.  An exam consists of these events: seconds pass, the user types, clicks
  the submit button (the click on to the results is one), answers arrive.  A training
  consists of the clicks on to the next word and of the click that skips to the exam,
  while seconds pass.
  An attempt begins in one of three ways: \<^verbatim>\<open>startSession\<close> in exam mode; \<^verbatim>\<open>startSession\<close>
  in training mode, the training, and the exam that \<^verbatim>\<open>startQuizAfterTraining\<close> begins; or
  \<^verbatim>\<open>retakeExam\<close>, which begins the exam of an attempt of the second kind again.
\<close>

fun exam_event :: "event \<Rightarrow> bool" where
  "exam_event (Tick i) = True"
| "exam_event (Input s) = True"
| "exam_event ClickSubmit = True"
| "exam_event (AnswerArrives r) = True"
| "exam_event e = False"

fun training_event :: "event \<Rightarrow> bool" where
  "training_event ClickNextWord = True"
| "training_event ClickSkipToExam = True"
| "training_event (Tick i) = True"
| "training_event e = False"

definition exam_only :: "quiz_response \<Rightarrow> event list \<Rightarrow> event list" where
  "exam_only r es = SessionArrives Exam r # es"

definition exam_after_training :: "quiz_response \<Rightarrow> event list \<Rightarrow> quiz_response \<Rightarrow> event list \<Rightarrow> event list" where
  "exam_after_training r0 ts r es = SessionArrives Training r0 # ts @ ExamArrives r # es"

definition retake :: "quiz_response \<Rightarrow> event list \<Rightarrow> event list" where
  "retake r es = ClickRetake # ExamArrives r # es"

definition kept :: "page \<Rightarrow> bool \<times> wordPair list \<times> stored \<times> screen" where
  \<comment> \<open>what the summary looks at besides the score and the answers, and the screen\<close>
  "kept p = (wasTrainingSession p, wordPairs p, localStorage p, activeScreen p)"

section \<open>The words of the specification on the timer\<close>

definition ticks :: "nat \<Rightarrow> nat \<Rightarrow> page \<Rightarrow> page" where
  \<comment> \<open>\<open>n\<close> seconds pass for the interval \<open>i\<close> and nothing else happens\<close>
  "ticks n i p = (fire i ^^ n) p"

definition expires_at :: "int \<Rightarrow> nat" where
  \<comment> \<open>the tick at which a countdown of \<open>d\<close> seconds runs out: the first one at the latest\<close>
  "expires_at d = nat (max 1 d)"

definition timer_inv :: "page \<Rightarrow> bool" where
  \<comment> \<open>the live intervals are the one that \<^verbatim>\<open>state.timerInterval\<close> names, if it names one\<close>
  "timer_inv p \<longleftrightarrow> intervals p = (case timerInterval p of None \<Rightarrow> [] | Some i \<Rightarrow> [i])"

section \<open>Sample data\<close>

text \<open>
  The data of the worked instances below: the direction \<^verbatim>\<open>greek_to_bulgarian\<close>, the word
  pair of the lion in lesson 1 and the one of the word in lesson 2 with their keys, a
  store that holds both, answers, the states and pages of small sessions, and runs of
  events.
\<close>

definition greek_to_bulgarian :: jsstring where
  "greek_to_bulgarian = [103, 114, 101, 101, 107, 95, 116, 111, 95, 98, 117, 108, 103, 97, 114, 105, 97, 110]"

definition leon :: wordPair where
  "leon = \<lparr>greek = [955, 941, 969, 957], bulgarian = [1083, 1098, 1074], lesson = Some 1\<rparr>"

definition logos :: wordPair where
  "logos = \<lparr>greek = [955, 972, 947, 959, 962], bulgarian = [1076, 1091, 1084, 1072], lesson = Some 2\<rparr>"

definition leon_key :: jsstring where
  \<comment> \<open>\<^verbatim>\<open>greek_to_bulgarian_1_1_\<close>, the kept Greek letters, \<^verbatim>\<open>_\<close>, the Bulgarian word\<close>
  "leon_key = greek_to_bulgarian @ [95, 49, 95, 49, 95, 955, 969, 957, 95, 1083, 1098, 1074]"

definition logos_key :: jsstring where
  "logos_key = greek_to_bulgarian @ [95, 50, 95, 50, 95, 955, 947, 959, 962, 95, 1076, 1091, 1084, 1072]"

definition sample_store :: stored where
  "sample_store =
     JsonObject (Some [(leon_key, mastered leon greek_to_bulgarian []),
                       (logos_key, mastered logos greek_to_bulgarian [])])"

definition full :: answerResult where
  "full = \<lparr>ans_correct = True, partial_credit = False\<rparr>"

definition partial :: answerResult where
  "partial = \<lparr>ans_correct = False, partial_credit = True\<rparr>"

definition quiz :: "wordPair list \<Rightarrow> answerResult option list \<Rightarrow> state" where
  \<comment> \<open>the state at the end of an exam with these pairs and these answers\<close>
  "quiz wps as =
     \<lparr>sessionId = Some [115], questions = map (\<lambda>wp. \<lparr>prompt = greek wp, prompt_label = []\<rparr>) wps,
      currentIndex = length wps, answers = as, mode = Exam, trainingCompleted = False,
      wordPairs = wps, wasTrainingSession = False, timePerQuestion = 60, timeRemaining = 60,
      timerInterval = None, selectedLessons = [1, 2]\<rparr>"

definition stamp :: "nat \<Rightarrow> jsstring" where
  "stamp i = []"

definition ho :: wordPair where
  \<comment> \<open>the masculine article (U+1F41), glossed as the article\<close>
  "ho = \<lparr>greek = [8001], bulgarian = [1095, 1083, 1077, 1085], lesson = Some 1\<rparr>"

definition he :: wordPair where
  \<comment> \<open>the feminine article (U+1F21), with the same gloss\<close>
  "he = \<lparr>greek = [7969], bulgarian = [1095, 1083, 1077, 1085], lesson = Some 1\<rparr>"

definition article_key :: jsstring where
  \<comment> \<open>the key of both: neither Greek letter is kept\<close>
  "article_key = greek_to_bulgarian @ [95, 49, 95, 49, 95, 95, 1095, 1083, 1077, 1085]"

definition leon_unfiled :: wordPair where
  \<comment> \<open>the lion without a lesson\<close>
  "leon_unfiled = \<lparr>greek = [955, 941, 969, 957], bulgarian = [1083, 1098, 1074], lesson = None\<rparr>"

definition wrong :: answerResult where
  "wrong = \<lparr>ans_correct = False, partial_credit = False\<rparr>"

definition one_question :: quiz_response where
  \<comment> \<open>the response of the server for a quiz of one word with ten seconds for it\<close>
  "one_question =
     \<lparr>session_id = [115], r_questions = [\<lparr>prompt = greek leon, prompt_label = []\<rparr>],
      word_pairs = [leon], time_per_question = 10\<rparr>"

definition late_click :: "event list" where
  \<comment> \<open>the time of the only question runs out; before the response to the empty answer is
     there, the user clicks the submit button on the empty field; the response arrives;
     the user clicks on to the results\<close>
  "late_click =
     [SessionArrives Exam one_question] @ replicate 10 (Tick 1)
       @ [ClickSubmit, AnswerArrives wrong, ClickSubmit]"

definition first_question :: page where
  \<comment> \<open>the page when the exam of one word has begun\<close>
  "first_question =
     \<lparr>sessionId = Some [115], questions = [\<lparr>prompt = greek leon, prompt_label = []\<rparr>],
      currentIndex = 0, answers = [], mode = Exam, trainingCompleted = False, wordPairs = [leon],
      wasTrainingSession = False, timePerQuestion = 10, timeRemaining = 10,
      timerInterval = Some 1, selectedLessons = [], intervals = [1], next_interval = 2,
      answerInput = [], submitBtn_onclick = SubmitAnswer, activeScreen = QuizScreen,
      retakeSection = False, localStorage = NoItem, posted = [], timeouts = 0\<rparr>"

definition training_and_exam :: "event list" where
  \<comment> \<open>a training with one word, its exam, a wrong answer, and the click on to the results\<close>
  "training_and_exam =
     [SessionArrives Training one_question, ClickNextWord, ExamArrives one_question,
      Input [955], ClickSubmit, AnswerArrives wrong, ClickSubmit]"

definition exam_alone :: "event list" where
  \<comment> \<open>the same exam without a training before it\<close>
  "exam_alone =
     [SessionArrives Exam one_question, Input [955], ClickSubmit, AnswerArrives wrong, ClickSubmit]"

definition retaken_exam :: "event list" where
  \<comment> \<open>the retake of the exam and a wrong answer again\<close>
  "retaken_exam =
     [ClickRetake, ExamArrives one_question, Input [955], ClickSubmit, AnswerArrives wrong, ClickSubmit]"

section \<open>Properties of the word key\<close>

lemmas kept_defs = greek_kept_def bulgarian_kept_def word_char_def

lemma is_upper_cased: "is_upper c \<Longrightarrow> cased c \<and> cased (c + 32)"
  unfolding is_upper_def cased_def by linarith

lemma is_upper_small: "is_upper c \<Longrightarrow> \<not> is_upper (c + 32)"
  unfolding is_upper_def by linarith

lemma sigma_cased: "cased 931" "cased 962" "cased 963"
  by (simp_all add: cased_def)

lemma sigma_lower: "lower_unit 962 = 962" "lower_unit 963 = 963"
  by (simp_all add: lower_unit_def is_upper_def)

lemma small_forms_cased:
  assumes "d \<in> set (small_forms c)"
  shows "cased c \<and> cased d \<and> \<not> is_upper d"
proof (cases "c = 931")
  case True
  with assms have "d = 963 \<or> d = 962"
    by (simp add: small_forms_def)
  with True show ?thesis
    by (auto simp: cased_def is_upper_def)
next
  case False
  with assms have up: "is_upper c" and d: "d = c + 32"
    by (simp_all add: small_forms_def split: if_splits)
  from is_upper_cased [OF up] is_upper_small [OF up] d show ?thesis
    by simp
qed

lemma case_variant_cased:
  assumes "case_variant c d"
  shows "cased c = cased d"
  using assms small_forms_cased [of d c] small_forms_cased [of c d]
  by (auto simp: case_variant_def)

lemma small_forms_lower:
  assumes "d \<in> set (small_forms c)" and "c \<noteq> 931"
  shows "lower_unit c = lower_unit d"
proof -
  from assms have up: "is_upper c" and d: "d = c + 32"
    by (simp_all add: small_forms_def split: if_splits)
  from up is_upper_small [OF up] d show ?thesis
    by (simp add: lower_unit_def)
qed

lemma case_variant_lower:
  assumes "case_variant c d" and "c \<noteq> 931" and "d \<noteq> 931"
  shows "lower_unit c = lower_unit d"
  using assms small_forms_lower [of d c] small_forms_lower [of c d]
  by (auto simp: case_variant_def)

lemma case_variant_sigma:
  assumes "case_variant 931 d" and "d \<noteq> 931"
  shows "lower_unit d = d"
proof -
  have "931 \<notin> set (small_forms d)"
    by (simp add: small_forms_def is_upper_def)
  with assms have "d = 963 \<or> d = 962"
    by (auto simp: case_variant_def small_forms_def)
  then show ?thesis
    using sigma_lower by auto
qed

lemma case_variant_sym: "case_variant c d \<Longrightarrow> case_variant d c"
  by (auto simp: case_variant_def)

lemma follows_variants:
  assumes "list_all2 case_variant cs ds"
  shows "at_word_end p cs = at_word_end p ds"
  using assms by (cases cs; cases ds) (auto simp: at_word_end_def dest: case_variant_cased)

lemma lower_from_Cons:
  "lower_from prev (c # cs) =
     (if c = 931 then sigma_of_place prev cs else lower_unit c) # lower_from (cased c) cs"
  by (cases cs) (simp_all add: sigma_of_place_def at_word_end_def)

text \<open>
  Two strings of kept code units that agree up to case have the same lower case exactly
  when they write their sigmas alike.
\<close>

lemma lower_from_variants:
  "list_all2 case_variant xs ys \<Longrightarrow> lower_from p xs = lower_from p ys \<longleftrightarrow> sigmas_alike p xs ys"
proof (induction xs ys arbitrary: p rule: list_all2_induct)
  case Nil
  show ?case by simp
next
  case (Cons c cs d ds)
  have cd: "cased c = cased d"
    using Cons.hyps(1) by (rule case_variant_cased)
  have place: "sigma_of_place p cs = sigma_of_place p ds"
    using follows_variants [OF Cons.hyps(2)] by (simp add: sigma_of_place_def)
  have tl: "lower_from (cased c) cs = lower_from (cased d) ds \<longleftrightarrow> sigmas_alike (cased c) cs ds"
    using Cons.IH [of "cased c"] cd by simp
  consider "c = 931" "d = 931" | "c = 931" "d \<noteq> 931" | "c \<noteq> 931" "d = 931" | "c \<noteq> 931" "d \<noteq> 931"
    by blast
  then show ?case
  proof cases
    case 1
    with place tl show ?thesis
      by (simp only: lower_from_Cons sigmas_alike.simps) simp
  next
    case 2
    with Cons.hyps(1) have "lower_unit d = d"
      using case_variant_sigma by simp
    with 2 tl show ?thesis
      by (simp only: lower_from_Cons sigmas_alike.simps) auto
  next
    case 3
    with Cons.hyps(1) have "lower_unit c = c"
      using case_variant_sigma case_variant_sym by simp
    with 3 tl show ?thesis
      by (simp only: lower_from_Cons sigmas_alike.simps) auto
  next
    case 4
    with Cons.hyps(1) have "lower_unit c = lower_unit d"
      by (simp add: case_variant_lower)
    with 4 tl show ?thesis
      by (simp only: lower_from_Cons sigmas_alike.simps) simp
  qed
qed

lemma length_lower_from: "length (lower_from p xs) = length xs"
  by (induction xs arbitrary: p) simp_all

lemma sigmas_alike_without:
  "931 \<notin> set xs \<Longrightarrow> 931 \<notin> set ys \<Longrightarrow> sigmas_alike p xs ys"
  by (induction p xs ys rule: sigmas_alike.induct) auto

lemma differ_only_filter:
  "differ_only keep xs ys \<Longrightarrow> list_all2 case_variant (filter keep xs) (filter keep ys)"
  by (induction rule: differ_only.induct) auto

lemma clean_bulgarian:
  assumes "differ_only bulgarian_kept b1 b2"
  shows "toLowerCase (filter bulgarian_kept b1) = toLowerCase (filter bulgarian_kept b2)"
proof -
  have no: "931 \<notin> set (filter bulgarian_kept b)" for b
    by (simp add: kept_defs)
  from lower_from_variants [OF differ_only_filter [OF assms], of False] sigmas_alike_without [OF no no]
  show ?thesis
    by (simp add: toLowerCase_def)
qed

lemma clean_greek:
  assumes "differ_only greek_kept g1 g2"
  shows "toLowerCase (filter greek_kept g1) = toLowerCase (filter greek_kept g2) \<longleftrightarrow> sigma_by_place g1 g2"
  using lower_from_variants [OF differ_only_filter [OF assms], of False]
  by (simp add: toLowerCase_def sigma_by_place_def)

lemma length_clean:
  assumes "differ_only keep xs ys"
  shows "length (toLowerCase (filter keep xs)) = length (toLowerCase (filter keep ys))"
  using list_all2_lengthD [OF differ_only_filter [OF assms]]
  by (simp add: toLowerCase_def length_lower_from)

text \<open>
  C3, as the code has it.  Take two word pairs of one lesson whose Greek sides and whose
  Bulgarian sides differ only in the case of letters and in code units outside the kept
  classes (punctuation, blanks).  They have the same key exactly when their capital
  sigmas stand for the small sigmas of their places: wherever one Greek side has a
  capital sigma and the other a small one, that is the final sigma at the end of a word
  of kept letters and the sigma elsewhere.  In every other letter, and in a sigma that
  is not at the end of a word, the key ignores the case; it ignores punctuation.
  Diacritic marks are not folded: a letter with a mark is outside the kept class and is
  dropped, see the counterexample.
\<close>

theorem createWordKey_case_punctuation:
  assumes "differ_only greek_kept g1 g2" and "differ_only bulgarian_kept b1 b2"
  shows "createWordKey g1 b1 l = createWordKey g2 b2 l \<longleftrightarrow> sigma_by_place g1 g2"
  using clean_greek [OF assms(1)] clean_bulgarian [OF assms(2)] length_clean [OF assms(1)]
  by (simp add: createWordKey_def)

text \<open>
  An instance with both places of the sigma: the word for wise in capitals and with an
  exclamation mark against its small letters, the first sigma at its beginning, the
  second at its end; the Bulgarian sides differ in a capital and a full stop.
\<close>

theorem createWordKey_case_punctuation_witness:
  "differ_only greek_kept [931, 927, 934, 927, 931, 33] [963, 959, 966, 959, 962]
   \<and> differ_only bulgarian_kept [1084, 1098, 1076, 1098, 1088] [1052, 1098, 1076, 1098, 1088, 46]
   \<and> sigma_by_place [931, 927, 934, 927, 931, 33] [963, 959, 966, 959, 962]
   \<and> createWordKey [931, 927, 934, 927, 931, 33] [1084, 1098, 1076, 1098, 1088] 1
     = createWordKey [963, 959, 966, 959, 962] [1052, 1098, 1076, 1098, 1088, 46] 1"
proof -
  have g: "differ_only greek_kept [931, 927, 934, 927, 931, 33] [963, 959, 966, 959, 962]"
    by (intro differ_only.letter differ_only.extra_left differ_only.stop)
       (simp_all add: kept_defs case_variant_def small_forms_def is_upper_def)
  have b: "differ_only bulgarian_kept [1084, 1098, 1076, 1098, 1088] [1052, 1098, 1076, 1098, 1088, 46]"
    by (intro differ_only.letter differ_only.extra_right differ_only.stop)
       (simp_all add: kept_defs case_variant_def small_forms_def is_upper_def)
  have s: "sigma_by_place [931, 927, 934, 927, 931, 33] [963, 959, 966, 959, 962]"
    by (simp add: sigma_by_place_def kept_defs sigma_of_place_def at_word_end_def cased_def)
  from g b s createWordKey_case_punctuation [OF g b, of 1] show ?thesis
    by simp
qed

text \<open>
  C3, as the claim states it, fails in two ways.  Diacritic marks: the accented epsilon
  (U+03AD) of the first spelling is outside \<^verbatim>\<open>\<alpha>-\<omega>\<close> and is deleted, the plain epsilon
  of the second one is kept, so the keys have different Greek parts.  Case: the two
  spellings of the word for an amount, in capitals and in small letters, differ only in
  case; their accented last letter is deleted, the capital sigma then stands at the end
  and becomes the final sigma, the small sigma stays as it is.
\<close>

theorem createWordKey_diacritic_counterexample:
  "createWordKey [955, 941, 947, 969] [1082, 1072, 1079, 1074, 1072, 1084] 1
     \<noteq> createWordKey [955, 949, 947, 969] [1082, 1072, 1079, 1074, 1072, 1084] 1
   \<and> differ_only greek_kept [928, 927, 931, 908] [960, 959, 963, 972]
   \<and> createWordKey [928, 927, 931, 908] [1089, 1091, 1084, 1072] 2
     \<noteq> createWordKey [960, 959, 963, 972] [1089, 1091, 1084, 1072] 2"
proof -
  have "differ_only greek_kept [928, 927, 931, 908] [960, 959, 963, 972]"
    by (intro differ_only.letter differ_only.extra_left differ_only.extra_right differ_only.stop)
       (simp_all add: kept_defs case_variant_def small_forms_def is_upper_def)
  then show ?thesis
    by (simp add: createWordKey_def toLowerCase_def kept_defs lower_unit_def is_upper_def cased_def)
qed

section \<open>Properties of the ledger\<close>

lemmas store_defs = ledger_of_def getProgressData_def default_progress_def obj_get_def

lemmas sample_defs = sample_store_def leon_def logos_def leon_key_def logos_key_def mastered_def
  greek_to_bulgarian_def

lemma keys_sample:
  "progressKey greek_to_bulgarian (greek leon) (bulgarian leon) 1 = leon_key"
  "progressKey greek_to_bulgarian (greek logos) (bulgarian logos) 2 = logos_key"
  by (simp_all add: progressKey_def createWordKey_def toLowerCase_def kept_defs lower_unit_def
      is_upper_def cased_def Number_toString_def dec.simps sample_defs)

lemma obj_get_Nil: "obj_get [] k = None"
  by (simp add: obj_get_def)

lemma obj_get_fold_delete:
  "obj_get (fold obj_delete ks w) k = (if k \<in> set ks then None else obj_get w k)"
  by (induction ks arbitrary: w) (auto simp: obj_get_def obj_delete_def delete_conv')

lemma set_own_keys: "set (own_keys w) = dom (map_of w)"
  by (auto simp: own_keys_def dom_map_of_conv_image_fst)

lemma distinct_own_keys: "distinct (own_keys w)"
  by (simp add: own_keys_def)

lemma in_keysToDelete:
  "k \<in> set (keysToDelete lessons dir w) \<longleftrightarrow> (\<exists>e. obj_get w k = Some e \<and> to_reset lessons dir e)"
  by (auto simp: keysToDelete_def set_own_keys obj_get_def split: option.splits)

lemma obj_get_reset:
  "obj_get (fold obj_delete (keysToDelete lessons dir w) w) k =
     (case obj_get w k of None \<Rightarrow> None | Some e \<Rightarrow> if to_reset lessons dir e then None else Some e)"
  by (simp add: obj_get_fold_delete in_keysToDelete split: option.splits)

text \<open>
  C7.  After \<^verbatim>\<open>resetProgress(lessons, direction)\<close> the ledger has, under every key, nothing
  if the entry that was there has its lesson in the list and the given direction, and
  the very entry that was there otherwise; a key without an entry stays without one.
\<close>

theorem resetProgress_exact:
  "obj_get (ledger_of (resetProgress lessons dir st)) k =
     (case obj_get (ledger_of st) k of
        None \<Rightarrow> None
      | Some e \<Rightarrow> if (\<exists>n. lesson e = Some n \<and> n \<in> set lessons) \<and> direction e = dir then None else Some e)"
proof -
  have cond: "to_reset lessons dir e \<longleftrightarrow> (\<exists>n. lesson e = Some n \<and> n \<in> set lessons) \<and> direction e = dir" for e
    by (auto simp: to_reset_def lessons_include_def split: option.splits)
  show ?thesis
    by (cases st)
       (simp_all add: resetProgress_def ledger_of_def getProgressData_def default_progress_def
          obj_get_reset cond obj_get_Nil split: option.splits)
qed

theorem resetProgress_exact_witness:
  "obj_get (ledger_of (resetProgress [1] greek_to_bulgarian sample_store)) leon_key = None
   \<and> obj_get (ledger_of (resetProgress [1] greek_to_bulgarian sample_store)) logos_key
       = Some (mastered logos greek_to_bulgarian [])"
  using resetProgress_exact [of "[1]" greek_to_bulgarian sample_store leon_key]
    resetProgress_exact [of "[1]" greek_to_bulgarian sample_store logos_key]
  by (simp add: store_defs sample_defs)

lemma fold_count:
  "fold (\<lambda>key c. case f key of None \<Rightarrow> c | Some e \<Rightarrow> if P e then c + 1 else c) ks (n :: nat)
     = n + length (filter (\<lambda>key. \<exists>e. f key = Some e \<and> P e) ks)"
  by (induction ks arbitrary: n) (auto split: option.splits)

lemma count_own_keys:
  "length (filter (\<lambda>key. \<exists>e. obj_get w key = Some e \<and> P e) (own_keys w))
     = card {k. \<exists>e. obj_get w k = Some e \<and> P e}"
proof -
  have "{k. \<exists>e. obj_get w k = Some e \<and> P e} = {k. \<exists>e. obj_get w k = Some e \<and> P e} \<inter> set (own_keys w)"
    by (auto simp: set_own_keys obj_get_def)
  then show ?thesis
    using distinct_length_filter [OF distinct_own_keys, of "\<lambda>key. \<exists>e. obj_get w key = Some e \<and> P e" w]
    by simp
qed

lemma counts_as_correct_iff:
  "counts_as_correct lessons dir e \<longleftrightarrow>
     (\<exists>n. lesson e = Some n \<and> n \<in> set lessons) \<and> direction e = dir \<and> correct e"
  by (auto simp: counts_as_correct_def lessons_include_def split: option.splits)

lemma loop_count:
  "(case wordProgress (getProgressData st) of
      None \<Rightarrow> 0
    | Some w \<Rightarrow> fold (\<lambda>key c. case obj_get w key of
                                None \<Rightarrow> c
                              | Some e \<Rightarrow> if counts_as_correct lessons dir e then c + 1 else c)
                     (own_keys w) 0)
   = card {k. \<exists>e. obj_get (ledger_of st) k = Some e \<and> counts_as_correct lessons dir e}"
  by (cases "wordProgress (getProgressData st)")
     (simp_all add: ledger_of_def fold_count count_own_keys obj_get_Nil)

lemma floor_numeral_div:
  "\<lfloor>(numeral a :: rat) / numeral b\<rfloor> = numeral a div numeral b"
  using floor_divide_of_int_eq [of "numeral a" "numeral b", where ?'a = rat] by simp

lemmas number_defs = fl_def Math_round_def round_even_def pow2_def scale_down.simps scale_up.simps
  Let_def floor_numeral_div

text \<open>
  The rounding of the two operations shows: 23 of 40 is 57.5 per cent, the binary64
  product is a little less, and \<^verbatim>\<open>Math.round\<close> gives 57.
\<close>

lemma percentage_23_of_40: "Math_round (fl (fl (23 / 40) * 100)) = 57"
  by (simp add: number_defs)

lemma percentage_1_of_8: "Math_round (fl (fl (1 / 8) * 100)) = 13"
  by (simp add: number_defs)

lemma own_keys_sample: "own_keys [(leon_key, e1), (logos_key, e2)] = [leon_key, logos_key]"
  by (simp add: own_keys_def leon_key_def logos_key_def)

lemma getProgressStats_sample:
  "getProgressStats [1] greek_to_bulgarian 8 sample_store
     = Inr \<lparr>correctCount = 1, totalWords = 8, percentage = 13\<rparr>"
proof -
  have keys: "leon_key \<noteq> logos_key"
    by (simp add: leon_key_def logos_key_def)
  have "getProgressData sample_store
          = Obj [(leon_key, mastered leon greek_to_bulgarian []), (logos_key, mastered logos greek_to_bulgarian [])]"
    by (simp add: getProgressData_def sample_store_def)
  then show ?thesis
    using keys
    by (simp add: getProgressStats_def own_keys_sample obj_get_def counts_as_correct_def
          lessons_include_def js_divide_def mastered_def leon_def logos_def percentage_1_of_8)
qed

text \<open>
  C8.  \<^verbatim>\<open>getProgressStats\<close> never divides by zero: it always returns its record, never
  the fault.  The count is the number of keys whose entry has its lesson in the list, the
  given direction and the flag \<^verbatim>\<open>correct\<close>; the percentage is the rounded quotient, as
  JavaScript computes it, when the total is positive, and 0 when it is zero (or less).
\<close>

theorem getProgressStats_safe:
  "\<exists>s. getProgressStats lessons dir tw st = Inr s
     \<and> correctCount s = card {k. \<exists>e. obj_get (ledger_of st) k = Some e
                                   \<and> (\<exists>n. lesson e = Some n \<and> n \<in> set lessons) \<and> direction e = dir \<and> correct e}
     \<and> totalWords s = tw
     \<and> (0 < tw \<longrightarrow> percentage s = Math_round (fl (fl (of_nat (correctCount s) / tw) * 100)))
     \<and> (tw \<le> 0 \<longrightarrow> percentage s = 0)"
proof -
  have same: "{k. \<exists>e. obj_get (ledger_of st) k = Some e \<and> counts_as_correct lessons dir e}
      = {k. \<exists>e. obj_get (ledger_of st) k = Some e
               \<and> (\<exists>n. lesson e = Some n \<and> n \<in> set lessons) \<and> direction e = dir \<and> correct e}"
    by (simp add: counts_as_correct_iff)
  show ?thesis
    unfolding getProgressStats_def Let_def loop_count same js_divide_def by simp
qed

theorem getProgressStats_safe_witness:
  "(0 :: rat) < 8
   \<and> getProgressStats [1] greek_to_bulgarian 8 sample_store
       = Inr \<lparr>correctCount = 1, totalWords = 8, percentage = 13\<rparr>
   \<and> card {k. \<exists>e. obj_get (ledger_of sample_store) k = Some e
                 \<and> (\<exists>n. lesson e = Some n \<and> n \<in> set [1]) \<and> direction e = greek_to_bulgarian \<and> correct e} = 1
   \<and> Math_round (fl (fl (of_nat 1 / 8) * 100)) = 13"
proof -
  obtain s where s: "getProgressStats [1] greek_to_bulgarian 8 sample_store = Inr s"
    and c: "correctCount s = card {k. \<exists>e. obj_get (ledger_of sample_store) k = Some e
                 \<and> (\<exists>n. lesson e = Some n \<and> n \<in> set [1]) \<and> direction e = greek_to_bulgarian \<and> correct e}"
    and p: "(0 :: rat) < 8 \<longrightarrow> percentage s = Math_round (fl (fl (of_nat (correctCount s) / 8) * 100))"
    using getProgressStats_safe [of "[1]" greek_to_bulgarian 8 sample_store] by blast
  from s have s_eq: "s = \<lparr>correctCount = 1, totalWords = 8, percentage = 13\<rparr>"
    by (simp add: getProgressStats_sample)
  from c s_eq have "card {k. \<exists>e. obj_get (ledger_of sample_store) k = Some e
                 \<and> (\<exists>n. lesson e = Some n \<and> n \<in> set [1]) \<and> direction e = greek_to_bulgarian \<and> correct e} = 1"
    by simp
  moreover from p s_eq have "Math_round (fl (fl (of_nat 1 / 8) * 100)) = 13"
    by simp
  ultimately show ?thesis
    by (simp add: getProgressStats_sample)
qed

section \<open>Properties of saving\<close>

lemma save_each_Obj:
  "save_each dir now as i wps (Obj w)
     = Inr (Obj (fold (\<lambda>(k, e). obj_set k e) (writes dir now as i wps) w))"
  by (induction wps arbitrary: i w) (auto split: option.splits)

lemma map_of_fold_update:
  "map_of (fold (\<lambda>(k, e). AList.update k e) ws w) k
     = (case map_of (rev ws) k of Some e \<Rightarrow> Some e | None \<Rightarrow> map_of w k)"
proof (induction ws arbitrary: w)
  case Nil
  show ?case by simp
next
  case (Cons x ws)
  obtain k' e' where x: "x = (k', e')" by (cases x)
  show ?case
    by (simp add: Cons.IH x map_add_def update_conv' split: option.splits)
qed

lemma obj_get_fold_set:
  "obj_get (fold (\<lambda>(k, e). obj_set k e) ws w) k
     = (case map_of (rev ws) k of Some e \<Rightarrow> Some e | None \<Rightarrow> obj_get w k)"
proof -
  have "(\<lambda>(k, e). obj_set k e) = (\<lambda>(k, e). AList.update k e)"
    by (simp add: fun_eq_iff obj_set_def)
  then show ?thesis
    by (simp add: obj_get_def map_of_fold_update split: option.splits)
qed

lemma writes_Cons:
  "writes dir now as i (wp # wps) = writes dir now as i [wp] @ writes dir now as (i + 1) wps"
  by simp

lemma writes_iff:
  "x \<in> set (writes dir now as i wps) \<longleftrightarrow> (\<exists>j<length wps. x \<in> set (writes dir now as (i + j) [wps ! j]))"
proof (induction wps arbitrary: i)
  case Nil
  show ?case by simp
next
  case (Cons wp wps)
  have "x \<in> set (writes dir now as i (wp # wps)) \<longleftrightarrow>
          x \<in> set (writes dir now as i [wp]) \<or> (\<exists>j<length wps. x \<in> set (writes dir now as (i + 1 + j) [wps ! j]))"
    by (subst writes_Cons) (simp only: set_append Un_iff Cons.IH)
  also have "\<dots> \<longleftrightarrow> (\<exists>j<length (wp # wps). x \<in> set (writes dir now as (i + j) [(wp # wps) ! j]))"
    by (auto simp: less_Suc_eq_0_disj simp del: writes.simps)
  finally show ?case .
qed

lemma single_write:
  "x \<in> set (writes dir now as i [wp]) \<longleftrightarrow>
     (\<exists>l a. lesson wp = Some l \<and> l \<noteq> 0 \<and> answer_at as i = Some a \<and> wasFullyCorrect a
        \<and> x = (progressKey dir (greek wp) (bulgarian wp) l, mastered wp dir (now i)))"
  by (cases "lesson wp") auto

lemma single_recorded:
  "(k, e) \<in> set (writes dir now (answers s) j [wordPairs s ! j]) \<longleftrightarrow>
     has_lesson (wordPairs s ! j) \<and> full_verdict s j
       \<and> pair_key dir (wordPairs s ! j) = Some k \<and> e = mastered (wordPairs s ! j) dir (now j)"
proof (cases "lesson (wordPairs s ! j)")
  case None
  then show ?thesis by (simp add: has_lesson_def)
next
  case (Some l)
  have ans: "(\<exists>a. answer_at (answers s) j = Some a \<and> wasFullyCorrect a) \<longleftrightarrow> full_verdict s j"
    by (auto simp: answer_at_def wasFullyCorrect_def full_verdict_def)
  show ?thesis
    using Some by (auto simp: has_lesson_def pair_key_def ans)
qed

lemma writes_recorded:
  "(k, e) \<in> set (writes dir now (answers s) 0 (wordPairs s)) \<longleftrightarrow>
     (\<exists>j. recorded s j \<and> pair_key dir (wordPairs s ! j) = Some k \<and> e = mastered (wordPairs s ! j) dir (now j))"
proof -
  have "(k, e) \<in> set (writes dir now (answers s) 0 (wordPairs s)) \<longleftrightarrow>
      (\<exists>j<length (wordPairs s). (k, e) \<in> set (writes dir now (answers s) (0 + j) [wordPairs s ! j]))"
    by (rule writes_iff)
  also have "\<dots> \<longleftrightarrow> (\<exists>j<length (wordPairs s). has_lesson (wordPairs s ! j) \<and> full_verdict s j
       \<and> pair_key dir (wordPairs s ! j) = Some k \<and> e = mastered (wordPairs s ! j) dir (now j))"
    by (simp only: add_0 single_recorded)
  also have "\<dots> \<longleftrightarrow> (\<exists>j. recorded s j \<and> pair_key dir (wordPairs s ! j) = Some k
       \<and> e = mastered (wordPairs s ! j) dir (now j))"
    unfolding recorded_def by blast
  finally show ?thesis .
qed

lemma getProgressData_keeps: "keeps_ledger st \<Longrightarrow> getProgressData st = Obj (ledger_of st)"
  by (cases st) (simp_all add: keeps_ledger_def store_defs split: option.splits)

lemma ledger_of_JsonObject: "ledger_of (JsonObject (Some w)) = w"
  by (simp add: store_defs)

lemma saveQuizProgress_keeps:
  assumes "keeps_ledger st"
  shows "saveQuizProgress dir now s st = Inr (JsonObject (Some (saved_ledger dir now s st)))"
  by (simp add: saveQuizProgress_def getProgressData_keeps [OF assms] save_each_Obj saved_ledger_def)

lemma saved_get:
  "obj_get (saved_ledger dir now s st) k
     = (case map_of (rev (writes dir now (answers s) 0 (wordPairs s))) k of
          Some e \<Rightarrow> Some e
        | None \<Rightarrow> obj_get (ledger_of st) k)"
  unfolding saved_ledger_def by (rule obj_get_fold_set)

lemma saved_frame:
  assumes "\<forall>i. recorded s i \<longrightarrow> pair_key dir (wordPairs s ! i) \<noteq> Some k"
  shows "obj_get (saved_ledger dir now s st) k = obj_get (ledger_of st) k"
proof -
  have "k \<notin> fst ` set (rev (writes dir now (answers s) 0 (wordPairs s)))"
    using assms by (auto simp: writes_recorded)
  then have "map_of (rev (writes dir now (answers s) 0 (wordPairs s))) k = None"
    by (simp add: map_of_eq_None_iff)
  then show ?thesis by (simp add: saved_get)
qed

lemma saved_written:
  assumes "\<exists>i. recorded s i \<and> pair_key dir (wordPairs s ! i) = Some k"
  shows "\<exists>j. recorded s j \<and> pair_key dir (wordPairs s ! j) = Some k
           \<and> obj_get (saved_ledger dir now s st) k = Some (mastered (wordPairs s ! j) dir (now j))"
proof -
  from assms obtain i where "recorded s i" "pair_key dir (wordPairs s ! i) = Some k" by blast
  then have "(k, mastered (wordPairs s ! i) dir (now i)) \<in> set (rev (writes dir now (answers s) 0 (wordPairs s)))"
    by (auto simp: writes_recorded)
  then have "\<exists>e. map_of (rev (writes dir now (answers s) 0 (wordPairs s))) k = Some e"
    by (rule weak_map_of_SomeI)
  then obtain e where e: "map_of (rev (writes dir now (answers s) 0 (wordPairs s))) k = Some e" ..
  then have "(k, e) \<in> set (writes dir now (answers s) 0 (wordPairs s))"
    by (auto dest: map_of_SomeD)
  then obtain j where "recorded s j" "pair_key dir (wordPairs s ! j) = Some k"
    "e = mastered (wordPairs s ! j) dir (now j)"
    by (auto simp: writes_recorded)
  with e show ?thesis
    by (auto simp: saved_get)
qed

lemma recorded_has_key: "recorded s i \<Longrightarrow> \<exists>k. pair_key dir (wordPairs s ! i) = Some k"
  by (auto simp: recorded_def has_lesson_def pair_key_def)

text \<open>
  C1, as the code has it.  With a store that keeps what is saved, \<^verbatim>\<open>saveQuizProgress\<close>
  returns, and the ledger changes under the keys of the recorded pairs only: a key that no
  recorded pair has keeps its entry (or stays without one), and under the key of a recorded
  pair stands the entry of a recorded pair with that key.  A pair is recorded when it has
  a lesson and its answer has the full verdict; a partial or wrong answer writes nothing.
\<close>

theorem saveQuizProgress_records:
  assumes "keeps_ledger st"
  shows "\<exists>st'. saveQuizProgress dir now s st = Inr st'
     \<and> (\<forall>k. (\<forall>i. recorded s i \<longrightarrow> pair_key dir (wordPairs s ! i) \<noteq> Some k)
             \<longrightarrow> obj_get (ledger_of st') k = obj_get (ledger_of st) k)
     \<and> (\<forall>i. recorded s i \<longrightarrow>
             (\<exists>j k. recorded s j \<and> pair_key dir (wordPairs s ! i) = Some k
                  \<and> pair_key dir (wordPairs s ! j) = Some k
                  \<and> obj_get (ledger_of st') k = Some (mastered (wordPairs s ! j) dir (now j))))"
proof -
  have presence: "\<exists>j k. recorded s j \<and> pair_key dir (wordPairs s ! i) = Some k
        \<and> pair_key dir (wordPairs s ! j) = Some k
        \<and> obj_get (saved_ledger dir now s st) k = Some (mastered (wordPairs s ! j) dir (now j))"
    if "recorded s i" for i
  proof -
    from that obtain k where k: "pair_key dir (wordPairs s ! i) = Some k"
      by (auto dest: recorded_has_key)
    with that have "\<exists>i. recorded s i \<and> pair_key dir (wordPairs s ! i) = Some k" by blast
    from saved_written [OF this] k show ?thesis by blast
  qed
  have run: "saveQuizProgress dir now s st = Inr (JsonObject (Some (saved_ledger dir now s st)))"
    by (rule saveQuizProgress_keeps [OF assms])
  have frame: "\<forall>k. (\<forall>i. recorded s i \<longrightarrow> pair_key dir (wordPairs s ! i) \<noteq> Some k)
      \<longrightarrow> obj_get (ledger_of (JsonObject (Some (saved_ledger dir now s st)))) k = obj_get (ledger_of st) k"
    by (simp add: ledger_of_JsonObject saved_frame)
  have "\<forall>i. recorded s i \<longrightarrow>
      (\<exists>j k. recorded s j \<and> pair_key dir (wordPairs s ! i) = Some k
        \<and> pair_key dir (wordPairs s ! j) = Some k
        \<and> obj_get (ledger_of (JsonObject (Some (saved_ledger dir now s st)))) k
            = Some (mastered (wordPairs s ! j) dir (now j)))"
    using presence by (simp add: ledger_of_JsonObject)
  with run frame show ?thesis by blast
qed

lemma recorded_sample:
  "recorded (quiz [leon, logos] [Some full, Some partial]) i \<longleftrightarrow> i = 0"
  by (auto simp: recorded_def quiz_def full_verdict_def has_lesson_def full_def partial_def
        leon_def logos_def less_Suc_eq nth_Cons split: nat.splits)

lemma pair_key_sample:
  "pair_key greek_to_bulgarian leon = Some leon_key"
  "pair_key greek_to_bulgarian logos = Some logos_key"
  using keys_sample by (simp_all add: pair_key_def leon_def logos_def)

lemma keys_differ: "leon_key \<noteq> logos_key"
  by (simp add: leon_key_def logos_key_def)

theorem saveQuizProgress_records_witness:
  "keeps_ledger NoItem
   \<and> (\<exists>st'. saveQuizProgress greek_to_bulgarian stamp (quiz [leon, logos] [Some full, Some partial]) NoItem = Inr st'
         \<and> obj_get (ledger_of st') logos_key = obj_get (ledger_of NoItem) logos_key
         \<and> obj_get (ledger_of st') leon_key = Some (mastered leon greek_to_bulgarian (stamp 0)))"
proof -
  let ?s = "quiz [leon, logos] [Some full, Some partial]"
  have k: "keeps_ledger NoItem" by (simp add: keeps_ledger_def)
  have wps: "wordPairs ?s ! 0 = leon" by (simp add: quiz_def)
  from saveQuizProgress_records [OF k, of greek_to_bulgarian stamp ?s]
  obtain st' where run: "saveQuizProgress greek_to_bulgarian stamp ?s NoItem = Inr st'"
    and frame: "\<And>k. (\<forall>i. recorded ?s i \<longrightarrow> pair_key greek_to_bulgarian (wordPairs ?s ! i) \<noteq> Some k)
             \<Longrightarrow> obj_get (ledger_of st') k = obj_get (ledger_of NoItem) k"
    and pres: "\<And>i. recorded ?s i \<Longrightarrow>
             (\<exists>j k. recorded ?s j \<and> pair_key greek_to_bulgarian (wordPairs ?s ! i) = Some k
                  \<and> pair_key greek_to_bulgarian (wordPairs ?s ! j) = Some k
                  \<and> obj_get (ledger_of st') k = Some (mastered (wordPairs ?s ! j) greek_to_bulgarian (stamp j)))"
    by blast
  have "obj_get (ledger_of st') logos_key = obj_get (ledger_of NoItem) logos_key"
    by (rule frame) (simp add: recorded_sample wps pair_key_sample keys_differ)
  moreover have "obj_get (ledger_of st') leon_key = Some (mastered leon greek_to_bulgarian (stamp 0))"
    using pres [of 0] by (auto simp: recorded_sample wps pair_key_sample)
  ultimately show ?thesis using k run by blast
qed

text \<open>
  C1, as the claim states it, fails for a pair without a lesson: its answer has the full
  verdict, and \<^verbatim>\<open>saveQuizProgress\<close> skips it (\<^verbatim>\<open>if (!lesson)\<close>) and saves an empty ledger.
\<close>

theorem saveQuizProgress_lesson_counterexample:
  "full_verdict (quiz [leon_unfiled] [Some full]) 0
   \<and> saveQuizProgress greek_to_bulgarian stamp (quiz [leon_unfiled] [Some full]) NoItem
       = Inr (JsonObject (Some []))"
  by (simp add: full_verdict_def quiz_def full_def leon_unfiled_def saveQuizProgress_def
        getProgressData_def default_progress_def)

section \<open>Properties of the exclusion list\<close>

lemma in_listed_for_key:
  "x \<in> set (case obj_get w key of
               None \<Rightarrow> []
             | Some e \<Rightarrow> if is_mastered lessons d e
                        then [\<lparr>greek = greek e, bulgarian = bulgarian e, lesson = lesson e\<rparr>]
                        else [])
   \<longleftrightarrow> (\<exists>e. obj_get w key = Some e \<and> is_mastered lessons d e
          \<and> x = \<lparr>greek = greek e, bulgarian = bulgarian e, lesson = lesson e\<rparr>)"
  by (cases "obj_get w key") auto

lemma obj_get_own_key: "obj_get w k = Some e \<Longrightarrow> k \<in> set (own_keys w)"
  by (auto simp: set_own_keys obj_get_def)

lemma in_getCorrectWordsForLessons:
  "x \<in> set (getCorrectWordsForLessons lessons d st) \<longleftrightarrow>
     (\<exists>k e. obj_get (ledger_of st) k = Some e \<and> is_mastered lessons d e
        \<and> x = \<lparr>greek = greek e, bulgarian = bulgarian e, lesson = lesson e\<rparr>)"
proof (cases "wordProgress (getProgressData st)")
  case None
  then show ?thesis
    by (simp add: getCorrectWordsForLessons_def ledger_of_def obj_get_Nil)
next
  case (Some w)
  have "x \<in> set (getCorrectWordsForLessons lessons d st) \<longleftrightarrow>
      (\<exists>k\<in>set (own_keys w). \<exists>e. obj_get w k = Some e \<and> is_mastered lessons d e
        \<and> x = \<lparr>greek = greek e, bulgarian = bulgarian e, lesson = lesson e\<rparr>)"
    using Some by (simp add: getCorrectWordsForLessons_def in_listed_for_key) metis
  also have "\<dots> \<longleftrightarrow> (\<exists>k e. obj_get w k = Some e \<and> is_mastered lessons d e
        \<and> x = \<lparr>greek = greek e, bulgarian = bulgarian e, lesson = lesson e\<rparr>)"
    using obj_get_own_key by blast
  finally show ?thesis
    using Some by (simp add: ledger_of_def)
qed

lemma mastered_pair:
  "\<lparr>greek = greek (mastered wp d t), bulgarian = bulgarian (mastered wp d t),
    lesson = lesson (mastered wp d t)\<rparr> = wp"
  by (simp add: mastered_def)

lemma is_mastered_mastered:
  "is_mastered lessons d (mastered wp dir t) \<longleftrightarrow> d = dir \<and> lessons_include lessons (lesson wp)"
  by (auto simp: is_mastered_def mastered_def)

text \<open>
  C2, as the code has it.  After the summary has been saved, a pool request for the
  direction of the session and a lesson selection that has the lesson of a recorded pair
  lists the pair among the excluded words, when no other recorded pair of the session has
  its key.  What a request lists after the summary it listed before, or it is a recorded
  pair of the session: a pair whose answer was partial is not added.
\<close>

theorem exclusion_after_summary:
  assumes "keeps_ledger st"
  shows "\<exists>st'. saveQuizProgress dir now s st = Inr st'
     \<and> (\<forall>i lessons. recorded s i \<and> only_with_key dir s i \<and> lessons_include lessons (lesson (wordPairs s ! i))
           \<longrightarrow> wordPairs s ! i \<in> set (getCorrectWordsForLessons lessons dir st'))
     \<and> (\<forall>lessons d x. x \<in> set (getCorrectWordsForLessons lessons d st')
           \<longrightarrow> x \<in> set (getCorrectWordsForLessons lessons d st)
               \<or> (d = dir \<and> (\<exists>i. recorded s i \<and> x = wordPairs s ! i)))"
proof -
  let ?st' = "JsonObject (Some (saved_ledger dir now s st))"
  have run: "saveQuizProgress dir now s st = Inr ?st'"
    by (rule saveQuizProgress_keeps [OF assms])
  have listed: "wordPairs s ! i \<in> set (getCorrectWordsForLessons lessons dir ?st')"
    if i: "recorded s i" and only: "only_with_key dir s i"
      and l: "lessons_include lessons (lesson (wordPairs s ! i))" for i lessons
  proof -
    from i obtain k where k: "pair_key dir (wordPairs s ! i) = Some k"
      by (auto dest: recorded_has_key)
    with i have "\<exists>i. recorded s i \<and> pair_key dir (wordPairs s ! i) = Some k" by blast
    from saved_written [OF this] obtain j where j: "recorded s j" "pair_key dir (wordPairs s ! j) = Some k"
      "obj_get (saved_ledger dir now s st) k = Some (mastered (wordPairs s ! j) dir (now j))"
      by blast
    from j(1,2) k only have "j = i" by (simp add: only_with_key_def)
    with j(3) have "obj_get (ledger_of ?st') k = Some (mastered (wordPairs s ! i) dir (now i))"
      by (simp add: ledger_of_JsonObject)
    moreover have "is_mastered lessons dir (mastered (wordPairs s ! i) dir (now i))"
      using l by (simp add: is_mastered_mastered)
    ultimately show ?thesis
      unfolding in_getCorrectWordsForLessons using mastered_pair by metis
  qed
  have added: "x \<in> set (getCorrectWordsForLessons lessons d st)
        \<or> (d = dir \<and> (\<exists>i. recorded s i \<and> x = wordPairs s ! i))"
    if x: "x \<in> set (getCorrectWordsForLessons lessons d ?st')" for lessons d x
  proof -
    from x obtain k e where e: "obj_get (saved_ledger dir now s st) k = Some e"
      "is_mastered lessons d e" "x = \<lparr>greek = greek e, bulgarian = bulgarian e, lesson = lesson e\<rparr>"
      unfolding in_getCorrectWordsForLessons by (auto simp: ledger_of_JsonObject)
    show ?thesis
    proof (cases "\<exists>i. recorded s i \<and> pair_key dir (wordPairs s ! i) = Some k")
      case True
      from saved_written [OF True] e(1) obtain j where j: "recorded s j"
        "e = mastered (wordPairs s ! j) dir (now j)"
        by (metis option.inject)
      with e(2,3) show ?thesis
        by (auto simp: is_mastered_mastered mastered_pair)
    next
      case False
      then have "obj_get (saved_ledger dir now s st) k = obj_get (ledger_of st) k"
        by (intro saved_frame) blast
      with e show ?thesis
        unfolding in_getCorrectWordsForLessons by auto
    qed
  qed
  from run listed added show ?thesis by blast
qed

lemma getCorrectWordsForLessons_NoItem: "getCorrectWordsForLessons lessons d NoItem = []"
  by (simp add: getCorrectWordsForLessons_def getProgressData_def default_progress_def own_keys_def)

lemma leon_neq_logos: "leon \<noteq> logos"
  by (simp add: leon_def logos_def)

theorem exclusion_after_summary_witness:
  "keeps_ledger NoItem
   \<and> (\<exists>st'. saveQuizProgress greek_to_bulgarian stamp (quiz [leon, logos] [Some full, Some partial]) NoItem = Inr st'
         \<and> leon \<in> set (getCorrectWordsForLessons [1, 2] greek_to_bulgarian st')
         \<and> logos \<notin> set (getCorrectWordsForLessons [1, 2] greek_to_bulgarian st'))"
proof -
  let ?s = "quiz [leon, logos] [Some full, Some partial]"
  have k: "keeps_ledger NoItem" by (simp add: keeps_ledger_def)
  have wps: "wordPairs ?s ! 0 = leon" by (simp add: quiz_def)
  from exclusion_after_summary [OF k, of greek_to_bulgarian stamp ?s]
  obtain st' where run: "saveQuizProgress greek_to_bulgarian stamp ?s NoItem = Inr st'"
    and listed: "\<And>i lessons. recorded ?s i \<and> only_with_key greek_to_bulgarian ?s i
           \<and> lessons_include lessons (lesson (wordPairs ?s ! i))
           \<Longrightarrow> wordPairs ?s ! i \<in> set (getCorrectWordsForLessons lessons greek_to_bulgarian st')"
    and added: "\<And>lessons d x. x \<in> set (getCorrectWordsForLessons lessons d st')
           \<Longrightarrow> x \<in> set (getCorrectWordsForLessons lessons d NoItem)
               \<or> (d = greek_to_bulgarian \<and> (\<exists>i. recorded ?s i \<and> x = wordPairs ?s ! i))"
    by blast
  have r0: "recorded ?s 0"
    by (simp add: recorded_sample)
  have o0: "only_with_key greek_to_bulgarian ?s 0"
    by (simp add: only_with_key_def recorded_sample)
  have l0: "lessons_include [1, 2] (lesson (wordPairs ?s ! 0))"
    unfolding wps by (simp add: lessons_include_def leon_def)
  have "leon \<in> set (getCorrectWordsForLessons [1, 2] greek_to_bulgarian st')"
    using listed [of 0 "[1, 2]"] r0 o0 l0 wps by metis
  moreover have "logos \<notin> set (getCorrectWordsForLessons [1, 2] greek_to_bulgarian st')"
  proof
    assume "logos \<in> set (getCorrectWordsForLessons [1, 2] greek_to_bulgarian st')"
    from added [OF this] show False
      using leon_neq_logos by (auto simp: getCorrectWordsForLessons_NoItem recorded_sample wps)
  qed
  ultimately show ?thesis using k run by blast
qed

lemma lesson_sample: "lesson leon = Some 1" "lesson ho = Some 1" "lesson he = Some 1"
  by (simp_all add: leon_def ho_def he_def)

lemma key_articles:
  "progressKey greek_to_bulgarian (greek ho) (bulgarian ho) 1 = article_key"
  "progressKey greek_to_bulgarian (greek he) (bulgarian he) 1 = article_key"
  by (simp_all add: progressKey_def createWordKey_def toLowerCase_def kept_defs lower_unit_def
      is_upper_def cased_def Number_toString_def dec.simps ho_def he_def article_key_def)

text \<open>
  C2, as the claim states it, fails when two pairs of a session have one key.  The two
  articles lose their only Greek letter, which has a breathing, and get the same key;
  both are answered with the full verdict, the second assignment replaces the first, and
  the request lists the second word only.
\<close>

theorem exclusion_collision_counterexample:
  "recorded (quiz [ho, he] [Some full, Some full]) 0
   \<and> saveQuizProgress greek_to_bulgarian stamp (quiz [ho, he] [Some full, Some full]) NoItem
       = Inr (JsonObject (Some [(article_key, mastered he greek_to_bulgarian [])]))
   \<and> getCorrectWordsForLessons [1] greek_to_bulgarian
        (JsonObject (Some [(article_key, mastered he greek_to_bulgarian [])])) = [he]
   \<and> ho \<notin> set [he]"
proof -
  have "recorded (quiz [ho, he] [Some full, Some full]) 0"
    by (simp add: recorded_def quiz_def has_lesson_def full_verdict_def full_def lesson_sample)
  moreover have "saveQuizProgress greek_to_bulgarian stamp (quiz [ho, he] [Some full, Some full]) NoItem
       = Inr (JsonObject (Some [(article_key, mastered he greek_to_bulgarian [])]))"
    by (simp add: saveQuizProgress_def getProgressData_def default_progress_def quiz_def
          lesson_sample answer_at_def wasFullyCorrect_def full_def key_articles
          obj_set_def stamp_def)
  moreover have "getCorrectWordsForLessons [1] greek_to_bulgarian
        (JsonObject (Some [(article_key, mastered he greek_to_bulgarian [])])) = [he]"
    by (simp add: getCorrectWordsForLessons_def getProgressData_def own_keys_def obj_get_def
          is_mastered_def mastered_def lessons_include_def he_def)
  moreover have "ho \<notin> set [he]"
    by (simp add: ho_def he_def)
  ultimately show ?thesis by blast
qed

section \<open>Reading the store\<close>

text \<open>
  Whatever \<^verbatim>\<open>JSON.parse\<close> or the property access throws is caught: the default is
  returned.  Without an item, with text that does not parse and with \<^verbatim>\<open>null\<close> the result
  is the default; an object comes back with its ledger, an empty one if it had none; an
  array is given an empty ledger.
\<close>

lemma getProgressData_caught:
  "getProgressData_try st = Inl x \<Longrightarrow> getProgressData st = default_progress"
  by (simp add: getProgressData_def)

lemma getProgressData_fallback:
  "st \<in> {NoItem, EmptyText, Unparsable, JsonNull, JsonObject None} \<Longrightarrow> getProgressData st = Obj []"
  by (auto simp: getProgressData_def default_progress_def)

lemma getProgressData_has_ledger:
  "st \<noteq> JsonPrimitive \<Longrightarrow> \<exists>w. wordProgress (getProgressData st) = Some w"
  by (cases st) (simp_all add: getProgressData_def default_progress_def)

text \<open>
  C9 fails for a store that holds a JSON number, string or boolean, such as the text
  \<^verbatim>\<open>5\<close>: \<^verbatim>\<open>JSON.parse\<close> returns the value, \<^verbatim>\<open>!parsed.wordProgress\<close> is true, the
  assignment \<^verbatim>\<open>parsed.wordProgress = {}\<close> to a primitive value does nothing, and the
  value itself is returned: it has no \<^verbatim>\<open>wordProgress\<close>.  The next assignment into the
  ledger then throws (\<^verbatim>\<open>null\<close>, the sibling case, is caught and gives the default).
\<close>

theorem getProgressData_primitive:
  "getProgressData JsonPrimitive = Prim
   \<and> wordProgress (getProgressData JsonPrimitive) = None
   \<and> wordProgress (getProgressData JsonNull) = Some []
   \<and> saveQuizProgress greek_to_bulgarian stamp (quiz [leon] [Some full]) JsonPrimitive = Inl TypeError"
  by (simp add: getProgressData_def default_progress_def saveQuizProgress_def quiz_def lesson_sample
        answer_at_def wasFullyCorrect_def full_def)

section \<open>Properties of the timer\<close>

lemma timer_inv_startTimer:
  assumes "timer_inv p"
  shows "startTimer p = p\<lparr>timeRemaining := timePerQuestion p, timerInterval := Some (next_interval p),
           intervals := [next_interval p], next_interval := next_interval p + 1\<rparr>"
  using assms by (cases "timerInterval p") (simp_all add: timer_inv_def startTimer_def clearInterval_def)

lemma timer_inv_stopTimer:
  assumes "timer_inv p"
  shows "stopTimer p = p\<lparr>timerInterval := None, intervals := []\<rparr>"
  using assms by (cases "timerInterval p") (simp_all add: timer_inv_def stopTimer_def clearInterval_def)

lemma stopTimer_stopped: "timerInterval p = None \<Longrightarrow> stopTimer p = p"
  by (simp add: stopTimer_def)

lemma timer_inv_submitAnswer:
  assumes "timer_inv p"
  shows "submitAnswer isTimeout p =
     (if trim (answerInput p) = [] \<and> \<not> isTimeout
      then p\<lparr>timeRemaining := timePerQuestion p, timerInterval := Some (next_interval p),
             intervals := [next_interval p], next_interval := next_interval p + 1\<rparr>
      else p\<lparr>timerInterval := None, intervals := [],
             posted := posted p @ [\<lparr>question_index = currentIndex p,
                                     req_answer = (if isTimeout then [] else trim (answerInput p))\<rparr>]\<rparr>)"
proof -
  have inv: "timer_inv (p\<lparr>timerInterval := None, intervals := []\<rparr>)"
    by (simp add: timer_inv_def)
  show ?thesis
    by (simp add: submitAnswer_def timer_inv_stopTimer [OF assms] timer_inv_startTimer [OF inv] Let_def)
qed

lemma timer_inv_handleTimeout:
  assumes "timer_inv p"
  shows "handleTimeout p =
     p\<lparr>timerInterval := None, intervals := [], timeouts := timeouts p + 1,
       posted := posted p @ [\<lparr>question_index = currentIndex p, req_answer = []\<rparr>]\<rparr>"
proof -
  have inv1: "timer_inv (p\<lparr>timeouts := timeouts p + 1\<rparr>)"
    using assms by (simp add: timer_inv_def)
  have inv2: "timer_inv ((p\<lparr>timeouts := timeouts p + 1\<rparr>)\<lparr>timerInterval := None, intervals := []\<rparr>)"
    by (simp add: timer_inv_def)
  show ?thesis
    unfolding handleTimeout_def timer_inv_stopTimer [OF inv1] timer_inv_submitAnswer [OF inv2]
    by simp
qed

lemma timer_inv_interval_callback:
  assumes "timer_inv p"
  shows "interval_callback p =
     (if timeRemaining p - 1 \<le> 0
      then p\<lparr>timeRemaining := timeRemaining p - 1, timerInterval := None, intervals := [],
             timeouts := timeouts p + 1,
             posted := posted p @ [\<lparr>question_index = currentIndex p, req_answer = []\<rparr>]\<rparr>
      else p\<lparr>timeRemaining := timeRemaining p - 1\<rparr>)"
proof -
  have inv: "timer_inv (p\<lparr>timeRemaining := timeRemaining p - 1\<rparr>)"
    using assms by (simp add: timer_inv_def)
  show ?thesis
    unfolding interval_callback_def Let_def timer_inv_handleTimeout [OF inv] by simp
qed

lemma fire_dead: "intervals p = [] \<Longrightarrow> fire j p = p"
  by (simp add: fire_def)

lemma ticks_dead: "intervals p = [] \<Longrightarrow> ticks n j p = p"
  by (induction n) (simp_all add: ticks_def fire_dead)

lemma ticks_Suc: "ticks (Suc n) i p = fire i (ticks n i p)"
  by (simp add: ticks_def)

lemma ticks_add: "ticks (m + n) i p = ticks m i (ticks n i p)"
  by (simp add: ticks_def funpow_add)

lemma ticks_before:
  assumes "timerInterval p = Some i" and "intervals p = [i]"
    and "n < expires_at (timeRemaining p)"
  shows "ticks n i p = p\<lparr>timeRemaining := timeRemaining p - int n\<rparr>"
  using assms(3)
proof (induction n)
  case 0
  show ?case by (simp add: ticks_def)
next
  case (Suc n)
  let ?q = "p\<lparr>timeRemaining := timeRemaining p - int n\<rparr>"
  have prev: "ticks n i p = ?q"
    using Suc by simp
  have inv: "timer_inv ?q"
    using assms(1,2) by (simp add: timer_inv_def)
  have live: "i \<in> set (intervals ?q)"
    using assms(2) by simp
  have "0 < timeRemaining p - int n - 1"
    using Suc.prems by (simp add: expires_at_def)
  then show ?case
    unfolding ticks_Suc prev fire_def using live
    by (simp add: timer_inv_interval_callback [OF inv])
qed

lemma ticks_expiry:
  assumes "timerInterval p = Some i" and "intervals p = [i]"
  shows "ticks (expires_at (timeRemaining p)) i p =
     p\<lparr>timeRemaining := timeRemaining p - int (expires_at (timeRemaining p)),
       timerInterval := None, intervals := [], timeouts := timeouts p + 1,
       posted := posted p @ [\<lparr>question_index = currentIndex p, req_answer = []\<rparr>]\<rparr>"
proof -
  obtain n where n: "expires_at (timeRemaining p) = Suc n"
    by (cases "expires_at (timeRemaining p)") (simp_all add: expires_at_def)
  let ?q = "p\<lparr>timeRemaining := timeRemaining p - int n\<rparr>"
  have prev: "ticks n i p = ?q"
    using assms n by (intro ticks_before) simp_all
  have inv: "timer_inv ?q"
    using assms by (simp add: timer_inv_def)
  have live: "i \<in> set (intervals ?q)"
    using assms(2) by simp
  have "timeRemaining p - int n - 1 \<le> 0"
    using n by (simp add: expires_at_def)
  then show ?thesis
    unfolding n ticks_Suc prev fire_def using live
    by (simp add: timer_inv_interval_callback [OF inv])
qed

lemma ticks_after:
  assumes "timerInterval p = Some i" and "intervals p = [i]"
    and "expires_at (timeRemaining p) \<le> n"
  shows "ticks n i p = ticks (expires_at (timeRemaining p)) i p"
proof -
  from assms(3) obtain m where m: "n = m + expires_at (timeRemaining p)"
    by (metis le_add_diff_inverse2)
  show ?thesis
    unfolding m ticks_add by (rule ticks_dead) (simp add: ticks_expiry [OF assms(1,2)])
qed

lemma timer_inv_other:
  "intervals q = intervals p \<Longrightarrow> timerInterval q = timerInterval p \<Longrightarrow> timer_inv p \<Longrightarrow> timer_inv q"
  by (simp add: timer_inv_def)

lemma timer_inv_displayQuestion: "timer_inv p \<Longrightarrow> timer_inv (displayQuestion p)"
proof -
  assume inv: "timer_inv p"
  have "timer_inv (p\<lparr>answerInput := [], submitBtn_onclick := SubmitAnswer\<rparr>)"
    using inv by (simp add: timer_inv_def)
  from timer_inv_startTimer [OF this] inv show ?thesis
    by (simp add: displayQuestion_def timer_inv_def)
qed

lemma timer_inv_step: "timer_inv p \<Longrightarrow> timer_inv (step e p)"
proof (cases e)
  case (Tick i)
  assume "timer_inv p"
  then show ?thesis
    unfolding Tick step.simps fire_def
    by (simp add: timer_inv_interval_callback) (simp add: timer_inv_def)
next
  case (Input x)
  assume "timer_inv p"
  then show ?thesis unfolding Input by (simp add: timer_inv_def)
next
  case ClickSubmit
  assume inv: "timer_inv p"
  have next_inv: "timer_inv (nextQuestion p)"
  proof -
    have "timer_inv (p\<lparr>currentIndex := currentIndex p + 1\<rparr>)"
      using inv by (simp add: timer_inv_def)
    then show ?thesis
      by (simp add: nextQuestion_def Let_def timer_inv_displayQuestion)
  qed
  have "timer_inv (submitAnswer False p)"
    unfolding timer_inv_submitAnswer [OF inv] by (simp add: timer_inv_def)
  with next_inv show ?thesis
    unfolding ClickSubmit by (cases "submitBtn_onclick p") simp_all
next
  case (AnswerArrives r)
  assume "timer_inv p"
  then show ?thesis unfolding AnswerArrives by (simp add: answer_arrived_def timer_inv_def)
next
  case (SummaryArrives dir now score)
  assume "timer_inv p"
  then show ?thesis
    unfolding SummaryArrives by (simp add: summary_arrived_def timer_inv_def split: sum.splits)
next
  case (SessionArrives m r)
  assume inv: "timer_inv p"
  show ?thesis
    unfolding SessionArrives step.simps session_arrived_def Let_def
    by (auto intro!: timer_inv_displayQuestion timer_inv_other [OF _ _ inv])
next
  case (ExamArrives r)
  assume inv: "timer_inv p"
  show ?thesis
    unfolding ExamArrives step.simps exam_arrived_def
    by (auto intro!: timer_inv_displayQuestion timer_inv_other [OF _ _ inv])
next
  case (QuizArrives r)
  assume inv: "timer_inv p"
  show ?thesis
    unfolding QuizArrives step.simps quiz_arrived_def
    by (auto intro!: timer_inv_displayQuestion timer_inv_other [OF _ _ inv])
next
  case (ClickStart t)
  assume "timer_inv p"
  then show ?thesis unfolding ClickStart by (simp add: startSession_def timer_inv_def)
next
  case ClickNextWord
  assume "timer_inv p"
  then show ?thesis
    unfolding ClickNextWord by (simp add: nextTrainingWord_def startExam_def Let_def timer_inv_def)
next
  case ClickSkipToExam
  assume "timer_inv p"
  then show ?thesis unfolding ClickSkipToExam by (simp add: startExam_def timer_inv_def)
next
  case ClickRetake
  assume "timer_inv p"
  then show ?thesis unfolding ClickRetake by (simp add: retakeExam_def timer_inv_def)
next
  case ClickRestart
  assume inv: "timer_inv p"
  show ?thesis
    unfolding ClickRestart step.simps restartQuiz_def timer_inv_stopTimer [OF inv]
    by (simp add: timer_inv_def)
qed

lemma timer_inv_fold: "timer_inv p \<Longrightarrow> timer_inv (fold step es p)"
  by (induction es arbitrary: p) (simp_all add: timer_inv_step)

lemma timer_inv_run: "timer_inv (run es (loaded st))"
  unfolding run_def by (rule timer_inv_fold) (simp add: timer_inv_def loaded_def)

text \<open>
  At most one interval is live in every page that the events can lead to, and it is the
  one that \<^verbatim>\<open>state.timerInterval\<close> names.
\<close>

lemma at_most_one_interval:
  "length (intervals (run es (loaded st))) \<le> 1
   \<and> set (intervals (run es (loaded st))) = set_option (timerInterval (run es (loaded st)))"
  using timer_inv_run [of es st] by (auto simp: timer_inv_def split: option.splits)

lemma countdown_timeouts:
  assumes "timerInterval p = Some i" and "intervals p = [i]"
  shows "timeouts (ticks n i p) = timeouts p + (if expires_at (timeRemaining p) \<le> n then 1 else 0)"
proof (cases "expires_at (timeRemaining p) \<le> n")
  case True
  then show ?thesis
    by (simp add: ticks_after [OF assms True] ticks_expiry [OF assms])
next
  case False
  then have "n < expires_at (timeRemaining p)" by simp
  from ticks_before [OF assms this] False show ?thesis by simp
qed

lemma countdown_inactive:
  assumes "timerInterval p = Some i" and "intervals p = [i]"
    and "expires_at (timeRemaining p) \<le> n"
  shows "intervals (ticks n i p) = [] \<and> timerInterval (ticks n i p) = None"
  by (simp add: ticks_after [OF assms] ticks_expiry [OF assms(1,2)])

lemma countdown_cancelled:
  assumes "timerInterval p = Some i" and "intervals p = [i]"
    and "n < expires_at (timeRemaining p)"
  shows "timeouts (ticks m j (stopTimer (ticks n i p))) = timeouts p"
proof -
  let ?q = "p\<lparr>timeRemaining := timeRemaining p - int n\<rparr>"
  have inv: "timer_inv ?q"
    using assms(1,2) by (simp add: timer_inv_def)
  have dead: "intervals (stopTimer ?q) = []"
    by (simp add: timer_inv_stopTimer [OF inv])
  show ?thesis
    unfolding ticks_before [OF assms] ticks_dead [OF dead]
    by (simp add: timer_inv_stopTimer [OF inv])
qed

text \<open>
  C4.  \<^verbatim>\<open>startTimer\<close> on a page that the events have led to starts a countdown of
  \<open>timePerQuestion\<close> seconds on a new interval.  If only seconds pass, \<^verbatim>\<open>handleTimeout\<close>
  has been called once more than before from the tick \<open>expires_at d\<close> on, which is not
  before \<open>d\<close>, and not before that tick; from then on no interval is live.  If
  \<^verbatim>\<open>stopTimer\<close> is called before that tick, no later tick calls \<^verbatim>\<open>handleTimeout\<close>.
\<close>

theorem countdown_expires_once:
  "let p0 = run es (loaded st); d = timePerQuestion p0; i = next_interval p0; p = startTimer p0
   in timerInterval p = Some i \<and> intervals p = [i] \<and> timeouts p = timeouts p0
      \<and> d \<le> int (expires_at d)
      \<and> (\<forall>n. timeouts (ticks n i p) = timeouts p0 + (if expires_at d \<le> n then 1 else 0))
      \<and> (\<forall>n. expires_at d \<le> n \<longrightarrow> intervals (ticks n i p) = [] \<and> timerInterval (ticks n i p) = None)
      \<and> (\<forall>n m j. n < expires_at d \<longrightarrow> timeouts (ticks m j (stopTimer (ticks n i p))) = timeouts p0)"
proof -
  define p0 where "p0 = run es (loaded st)"
  define p where "p = startTimer p0"
  have inv: "timer_inv p0"
    unfolding p0_def by (rule timer_inv_run)
  have p: "p = p0\<lparr>timeRemaining := timePerQuestion p0, timerInterval := Some (next_interval p0),
           intervals := [next_interval p0], next_interval := next_interval p0 + 1\<rparr>"
    unfolding p_def by (rule timer_inv_startTimer [OF inv])
  have t: "timerInterval p = Some (next_interval p0)" and l: "intervals p = [next_interval p0]"
    and r: "timeRemaining p = timePerQuestion p0" and o: "timeouts p = timeouts p0"
    by (simp_all add: p)
  have "timePerQuestion p0 \<le> int (expires_at (timePerQuestion p0))"
    unfolding expires_at_def by linarith
  moreover have "\<forall>n. timeouts (ticks n (next_interval p0) p)
      = timeouts p0 + (if expires_at (timePerQuestion p0) \<le> n then 1 else 0)"
    using countdown_timeouts [OF t l] by (simp add: r o)
  moreover have "\<forall>n. expires_at (timePerQuestion p0) \<le> n
      \<longrightarrow> intervals (ticks n (next_interval p0) p) = [] \<and> timerInterval (ticks n (next_interval p0) p) = None"
    using countdown_inactive [OF t l] by (simp add: r)
  moreover have "\<forall>n m j. n < expires_at (timePerQuestion p0)
      \<longrightarrow> timeouts (ticks m j (stopTimer (ticks n (next_interval p0) p))) = timeouts p0"
    using countdown_cancelled [OF t l] by (simp add: r o)
  ultimately show ?thesis
    using t l o unfolding Let_def p0_def [symmetric] p_def [symmetric] by blast
qed

lemma run_Nil: "run [] p = p"
  by (simp add: run_def)

theorem countdown_expires_once_witness:
  "timeouts (ticks 59 1 (startTimer (loaded NoItem))) = 0
   \<and> timeouts (ticks 60 1 (startTimer (loaded NoItem))) = 1
   \<and> timeouts (ticks 1000 1 (startTimer (loaded NoItem))) = 1
   \<and> intervals (ticks 60 1 (startTimer (loaded NoItem))) = []
   \<and> timeouts (ticks 100 1 (stopTimer (ticks 30 1 (startTimer (loaded NoItem))))) = 0"
proof -
  have d: "timePerQuestion (loaded NoItem) = 60" and i: "next_interval (loaded NoItem) = 1"
    and o: "timeouts (loaded NoItem) = 0"
    by (simp_all add: loaded_def)
  have e: "expires_at 60 = 60"
    by (simp add: expires_at_def)
  from countdown_expires_once [of "[]" NoItem]
  have all: "\<forall>n. timeouts (ticks n 1 (startTimer (loaded NoItem))) = (if 60 \<le> n then 1 else 0)"
    and off: "\<forall>n. 60 \<le> n \<longrightarrow> intervals (ticks n 1 (startTimer (loaded NoItem))) = []"
    and cancel: "\<forall>n m j. n < 60 \<longrightarrow> timeouts (ticks m j (stopTimer (ticks n 1 (startTimer (loaded NoItem))))) = 0"
    unfolding Let_def run_Nil d i o e by simp_all
  from all off cancel show ?thesis by simp
qed

lemma run_append: "run (es @ es') p = run es' (run es p)"
  by (simp add: run_def)

lemma run_ticks: "run (replicate n (Tick i)) p = ticks n i p"
proof (induction n arbitrary: p)
  case 0
  show ?case by (simp add: run_def ticks_def)
next
  case (Suc n)
  have "run (replicate (Suc n) (Tick i)) p = run (replicate n (Tick i)) (fire i p)"
    by (simp add: run_def)
  also have "\<dots> = ticks n i (fire i p)"
    by (rule Suc.IH)
  also have "\<dots> = ticks (Suc n) i p"
    by (simp add: ticks_def funpow_swap1)
  finally show ?case .
qed

lemma run_first_question: "run [SessionArrives Exam one_question] (loaded NoItem) = first_question"
  by (simp add: run_def session_arrived_def displayQuestion_def startTimer_def one_question_def
        loaded_def first_question_def)

text \<open>
  C10.  On a page that the events have led to, \<^verbatim>\<open>submitAnswer(false)\<close> with an answer
  field that is empty after trimming leaves the page as it is but for the timer: the
  countdown begins anew on a new interval, the only live one; no answer is recorded and
  nothing is sent.  Whatever the argument, an empty answer is sent only when it is
  \<open>True\<close>; the submission of a timeout sends the empty answer for the current question,
  a manual one with text sends the trimmed text.
\<close>

theorem empty_submission_restarts_timer:
  "let p = run es (loaded st)
   in (trim (answerInput p) = [] \<longrightarrow>
         submitAnswer False p
           = p\<lparr>timeRemaining := timePerQuestion p, timerInterval := Some (next_interval p),
               intervals := [next_interval p], next_interval := next_interval p + 1\<rparr>
         \<and> answers (submitAnswer False p) = answers p
         \<and> posted (submitAnswer False p) = posted p)
      \<and> (\<forall>isTimeout r. posted (submitAnswer isTimeout p) = posted p @ [r] \<and> req_answer r = []
            \<longrightarrow> isTimeout)
      \<and> posted (submitAnswer True p) = posted p @ [\<lparr>question_index = currentIndex p, req_answer = []\<rparr>]
      \<and> (trim (answerInput p) \<noteq> [] \<longrightarrow>
            posted (submitAnswer False p)
              = posted p @ [\<lparr>question_index = currentIndex p, req_answer = trim (answerInput p)\<rparr>])"
proof -
  have inv: "timer_inv (run es (loaded st))"
    by (rule timer_inv_run)
  show ?thesis
    unfolding Let_def timer_inv_submitAnswer [OF inv] by auto
qed

theorem empty_submission_restarts_timer_witness:
  "trim (answerInput first_question) = []
   \<and> submitAnswer False first_question
       = first_question\<lparr>timeRemaining := 10, timerInterval := Some 2, intervals := [2], next_interval := 3\<rparr>
   \<and> answers (submitAnswer False first_question) = []
   \<and> posted (submitAnswer False first_question) = []
   \<and> posted (submitAnswer True first_question) = [\<lparr>question_index = 0, req_answer = []\<rparr>]"
proof -
  have t: "trim (answerInput first_question) = []"
    by (simp add: first_question_def trim_def)
  have f: "timePerQuestion first_question = 10" "next_interval first_question = 2"
    "answers first_question = []" "posted first_question = []" "currentIndex first_question = 0"
    by (simp_all add: first_question_def)
  from empty_submission_restarts_timer [of "[SessionArrives Exam one_question]" NoItem] t
  show ?thesis
    unfolding Let_def run_first_question by (simp add: f)
qed

lemma first_question_expired:
  "ticks 10 1 first_question
     = first_question\<lparr>timeRemaining := 0, timerInterval := None, intervals := [], timeouts := 1,
         posted := [\<lparr>question_index = 0, req_answer = []\<rparr>]\<rparr>"
  using ticks_expiry [of first_question 1]
  by (simp add: first_question_def expires_at_def)

lemma run_late_click:
  "run late_click (loaded NoItem)
     = first_question\<lparr>currentIndex := 1, answers := [Some wrong], timeRemaining := 10,
         timerInterval := Some 2, intervals := [2], next_interval := 3,
         submitBtn_onclick := NextQuestion, timeouts := 1,
         posted := [\<lparr>question_index = 0, req_answer = []\<rparr>]\<rparr>"
  unfolding late_click_def run_append run_first_question run_ticks first_question_expired
  by (simp add: run_def first_question_def submitAnswer_def stopTimer_def startTimer_def trim_def
        answer_arrived_def nextQuestion_def)

text \<open>
  C5 fails in its last part.  The events of \<open>late_click\<close> are: the exam of one word
  begins; its ten seconds run out, \<^verbatim>\<open>handleTimeout\<close> stops the timer and sends the empty
  answer; before the response is there the user clicks the submit button, whose handler
  is still \<^verbatim>\<open>submitAnswer(false)\<close>, on the empty field, and the function starts the timer
  again; the response arrives and the handler becomes \<^verbatim>\<open>nextQuestion\<close>; the user clicks
  on, \<^verbatim>\<open>nextQuestion\<close> moves past the last question and asks for the summary without
  stopping the timer.  The page then has left its only question and has a live
  interval; ten seconds later \<^verbatim>\<open>handleTimeout\<close> runs a second time and sends an empty
  answer for the index 1, where there is no question.
\<close>

theorem stale_expiry_after_last_question:
  "currentIndex (run late_click (loaded NoItem)) = 1
   \<and> length (questions (run late_click (loaded NoItem))) = 1
   \<and> answers (run late_click (loaded NoItem)) = [Some wrong]
   \<and> intervals (run late_click (loaded NoItem)) = [2]
   \<and> timeouts (run (late_click @ replicate 10 (Tick 2)) (loaded NoItem)) = 2
   \<and> posted (run (late_click @ replicate 10 (Tick 2)) (loaded NoItem))
       = [\<lparr>question_index = 0, req_answer = []\<rparr>, \<lparr>question_index = 1, req_answer = []\<rparr>]"
proof -
  let ?q = "run late_click (loaded NoItem)"
  have q: "timerInterval ?q = Some 2" "intervals ?q = [2]" "timeRemaining ?q = 10"
    "timeouts ?q = 1" "posted ?q = [\<lparr>question_index = 0, req_answer = []\<rparr>]" "currentIndex ?q = 1"
    "answers ?q = [Some wrong]" "length (questions ?q) = 1"
    by (simp_all add: run_late_click first_question_def)
  have e: "expires_at 10 = 10"
    by (simp add: expires_at_def)
  have "ticks 10 2 ?q = ?q\<lparr>timeRemaining := 0, timerInterval := None, intervals := [], timeouts := 2,
      posted := [\<lparr>question_index = 0, req_answer = []\<rparr>, \<lparr>question_index = 1, req_answer = []\<rparr>]\<rparr>"
    using ticks_expiry [OF q(1,2)] by (simp add: q e)
  then have "timeouts (ticks 10 2 ?q) = 2"
    and "posted (ticks 10 2 ?q) = [\<lparr>question_index = 0, req_answer = []\<rparr>, \<lparr>question_index = 1, req_answer = []\<rparr>]"
    by simp_all
  with q show ?thesis
    by (simp add: run_append run_ticks)
qed

section \<open>The retake section\<close>

text \<open>
  \<^verbatim>\<open>saveQuizProgress\<close> throws exactly on a store that holds a JSON number, string or
  boolean (the defect of \<^verbatim>\<open>getProgressData\<close>); \<^verbatim>\<open>showSummary\<close> then alerts and the page
  stays as it is.  On every other store the summary screen comes up, with the retake
  section shown exactly under the three conditions of the code.
\<close>

lemma save_each_ledger:
  "wordProgress p \<noteq> None \<Longrightarrow> \<exists>p'. save_each dir now as i wps p = Inr p' \<and> wordProgress p' \<noteq> None"
proof (induction wps arbitrary: i p)
  case Nil
  then show ?case by simp
next
  case (Cons wp wps)
  have set: "\<exists>p'. set_entry k e p = Inr p' \<and> wordProgress p' \<noteq> None" for k e
    using Cons.prems by (cases p) simp_all
  show ?case
  proof (cases "\<exists>l a. lesson wp = Some l \<and> l \<noteq> 0 \<and> answer_at as i = Some a \<and> wasFullyCorrect a")
    case True
    then obtain l a where w: "lesson wp = Some l" "l \<noteq> 0" "answer_at as i = Some a" "wasFullyCorrect a"
      by blast
    from set obtain p' where p': "set_entry (progressKey dir (greek wp) (bulgarian wp) l)
        (mastered wp dir (now i)) p = Inr p'" "wordProgress p' \<noteq> None"
      by blast
    from Cons.IH [OF p'(2)] w p'(1) show ?thesis
      by simp
  next
    case False
    then have "save_each dir now as i (wp # wps) p = save_each dir now as (i + 1) wps p"
      by (auto split: option.splits)
    with Cons.IH [OF Cons.prems] show ?thesis
      by simp
  qed
qed

lemma save_each_Prim:
  "save_each dir now as i wps Prim = Inl TypeError \<or> save_each dir now as i wps Prim = Inr Prim"
  by (induction wps arbitrary: i) (auto split: option.splits)

lemma saveQuizProgress_primitive: "saveQuizProgress dir now s JsonPrimitive = Inl TypeError"
  using save_each_Prim [of dir now "answers s" 0 "wordPairs s"]
  by (auto simp: saveQuizProgress_def getProgressData_def)

lemma saveQuizProgress_returns:
  assumes "st \<noteq> JsonPrimitive"
  shows "\<exists>st'. saveQuizProgress dir now s st = Inr st' \<and> st' \<noteq> JsonPrimitive"
proof -
  from getProgressData_has_ledger [OF assms] have "wordProgress (getProgressData st) \<noteq> None"
    by auto
  from save_each_ledger [OF this, of dir now "answers s" 0 "wordPairs s"]
  obtain p' where p': "save_each dir now (answers s) 0 (wordPairs s) (getProgressData st) = Inr p'"
    "wordProgress p' \<noteq> None"
    by blast
  then show ?thesis
    by (cases p') (simp_all add: saveQuizProgress_def)
qed

lemma summary_arrived_primitive:
  "localStorage p = JsonPrimitive \<Longrightarrow> summary_arrived dir now score p = p"
  by (simp add: summary_arrived_def saveQuizProgress_primitive)

lemma summary_arrived_shown:
  assumes "localStorage p \<noteq> JsonPrimitive"
  shows "activeScreen (summary_arrived dir now score p) = SummaryScreen
     \<and> (retakeSection (summary_arrived dir now score p)
          \<longleftrightarrow> wasTrainingSession p \<and> score < 100 \<and> wordPairs p \<noteq> [])
     \<and> localStorage (summary_arrived dir now score p) \<noteq> JsonPrimitive"
  using saveQuizProgress_returns [OF assms, of dir now p]
  by (auto simp: summary_arrived_def)

text \<open>
  The events of an exam and of a training leave the training flag, the word pairs and
  the store as they are; the beginnings of the attempts set them.
\<close>

lemma kept_stopTimer: "kept (stopTimer p) = kept p"
  by (simp add: kept_def stopTimer_def clearInterval_def split: option.splits)

lemma kept_startTimer: "kept (startTimer p) = kept p"
  by (simp add: kept_def startTimer_def clearInterval_def Let_def split: option.splits)

lemma kept_submitAnswer: "kept (submitAnswer t p) = kept p"
proof -
  have "kept (startTimer (stopTimer p)) = kept p"
    by (simp only: kept_startTimer kept_stopTimer)
  moreover have "kept ((stopTimer p)\<lparr>posted := ps\<rparr>) = kept p" for ps
    using kept_stopTimer [of p] by (simp add: kept_def)
  ultimately show ?thesis
    by (simp add: submitAnswer_def Let_def)
qed

lemma kept_handleTimeout: "kept (handleTimeout p) = kept p"
proof -
  have "kept (stopTimer (p\<lparr>timeouts := timeouts p + 1\<rparr>)) = kept p"
    unfolding kept_stopTimer by (simp add: kept_def)
  then show ?thesis
    by (simp add: handleTimeout_def kept_submitAnswer)
qed

lemma kept_fire: "kept (fire i p) = kept p"
proof -
  have "kept (handleTimeout (p\<lparr>timeRemaining := t\<rparr>)) = kept p" for t
    unfolding kept_handleTimeout by (simp add: kept_def)
  moreover have "kept (p\<lparr>timeRemaining := t\<rparr>) = kept p" for t
    by (simp add: kept_def)
  ultimately show ?thesis
    by (simp add: fire_def interval_callback_def Let_def)
qed

lemma kept_displayQuestion: "kept (displayQuestion p) = kept p"
proof -
  have "kept (startTimer (p\<lparr>answerInput := [], submitBtn_onclick := SubmitAnswer\<rparr>)) = kept p"
    unfolding kept_startTimer by (simp add: kept_def)
  then show ?thesis
    by (simp add: displayQuestion_def)
qed

lemma kept_nextQuestion: "kept (nextQuestion p) = kept p"
proof -
  have "kept (displayQuestion (p\<lparr>currentIndex := currentIndex p + 1\<rparr>)) = kept p"
    unfolding kept_displayQuestion by (simp add: kept_def)
  moreover have "kept (p\<lparr>currentIndex := currentIndex p + 1\<rparr>) = kept p"
    by (simp add: kept_def)
  ultimately show ?thesis
    by (simp add: nextQuestion_def Let_def)
qed

lemma kept_exam_event: "exam_event e \<Longrightarrow> kept (step e p) = kept p"
proof (cases e)
  case (Tick i)
  then show ?thesis by (simp add: kept_fire)
next
  case (Input x)
  then show ?thesis by (simp add: kept_def)
next
  case ClickSubmit
  then show ?thesis
    by (cases "submitBtn_onclick p") (simp_all add: kept_submitAnswer kept_nextQuestion)
next
  case (AnswerArrives r)
  then show ?thesis by (simp add: kept_def answer_arrived_def)
qed simp_all

lemma kept_training_event: "training_event e \<Longrightarrow> kept (step e p) = kept p"
proof (cases e)
  case (Tick i)
  then show ?thesis by (simp add: kept_fire)
qed (simp_all add: kept_def nextTrainingWord_def startExam_def Let_def)

lemma kept_exam: "list_all exam_event es \<Longrightarrow> kept (run es p) = kept p"
  unfolding run_def by (induction es arbitrary: p) (simp_all add: kept_exam_event)

lemma kept_training: "list_all training_event ts \<Longrightarrow> kept (run ts p) = kept p"
  unfolding run_def by (induction ts arbitrary: p) (simp_all add: kept_training_event)

lemma run_Cons: "run (e # es) p = run es (step e p)"
  by (simp add: run_def)

lemma kept_session_arrived:
  "kept (session_arrived m r p)
     = (m = Training, word_pairs r, localStorage p, if m = Training then TrainingScreen else QuizScreen)"
proof (cases "m = Training")
  case True
  then show ?thesis
    by (simp add: session_arrived_def kept_def)
next
  case False
  then show ?thesis
    unfolding session_arrived_def Let_def by (simp add: kept_displayQuestion) (simp add: kept_def)
qed

lemma kept_exam_arrived:
  "kept (exam_arrived r p) = (wasTrainingSession p, word_pairs r, localStorage p, QuizScreen)"
  unfolding exam_arrived_def kept_displayQuestion by (simp add: kept_def)

lemma kept_exam_only:
  assumes "list_all exam_event es"
  shows "kept (run (exam_only r es) p) = (False, word_pairs r, localStorage p, QuizScreen)"
  unfolding exam_only_def run_Cons kept_exam [OF assms]
  by (simp add: kept_session_arrived)

lemma kept_exam_after_training:
  assumes "list_all training_event ts" and "list_all exam_event es"
  shows "kept (run (exam_after_training r0 ts r es) p) = (True, word_pairs r, localStorage p, QuizScreen)"
proof -
  let ?p1 = "session_arrived Training r0 p"
  have "kept (run ts ?p1) = (True, word_pairs r0, localStorage p, TrainingScreen)"
    unfolding kept_training [OF assms(1)] by (simp add: kept_session_arrived)
  then have "kept (exam_arrived r (run ts ?p1)) = (True, word_pairs r, localStorage p, QuizScreen)"
    unfolding kept_exam_arrived by (simp add: kept_def)
  then show ?thesis
    unfolding exam_after_training_def run_Cons run_append kept_exam [OF assms(2)]
    by simp
qed

lemma kept_retake:
  assumes "list_all exam_event es"
  shows "kept (run (retake r es) p) = (True, word_pairs r, localStorage p, QuizScreen)"
  unfolding retake_def run_Cons kept_exam [OF assms] step.simps kept_exam_arrived
  by (simp add: retakeExam_def)

lemma summary_of_attempt:
  assumes "kept p = (t, wps, st, QuizScreen)" and "wps \<noteq> []"
  shows "(activeScreen (run [SummaryArrives dir now score] p) = SummaryScreen \<longleftrightarrow> st \<noteq> JsonPrimitive)
     \<and> (activeScreen (run [SummaryArrives dir now score] p) = SummaryScreen
          \<longrightarrow> (retakeSection (run [SummaryArrives dir now score] p) \<longleftrightarrow> t \<and> score < 100))"
proof (cases "st = JsonPrimitive")
  case True
  with assms(1) have "localStorage p = JsonPrimitive" and "activeScreen p = QuizScreen"
    by (simp_all add: kept_def)
  with True show ?thesis
    by (simp add: run_def summary_arrived_primitive)
next
  case False
  with assms have "localStorage p \<noteq> JsonPrimitive" and "wordPairs p \<noteq> []" and "wasTrainingSession p = t"
    by (simp_all add: kept_def)
  with summary_arrived_shown [of p dir now score] False show ?thesis
    by (simp add: run_def)
qed

lemma store_after_summary:
  assumes "localStorage (run es p) \<noteq> JsonPrimitive"
  shows "localStorage (run (es @ [SummaryArrives dir now score]) p) \<noteq> JsonPrimitive"
  using summary_arrived_shown [OF assms, of dir now score]
  by (simp add: run_append run_def)

text \<open>
  C6.  Take an attempt with at least one word pair, as every session has, and let its
  summary arrive.  The summary screen comes up unless the store holds a bare JSON
  number, string or boolean (then \<^verbatim>\<open>saveQuizProgress\<close> throws and the quiz screen
  stays).  On the summary screen the retake section is shown exactly when the attempt
  followed a training and the score is below 100: an attempt that \<^verbatim>\<open>startSession\<close> began
  in exam mode is never offered the retake, whatever the score; an attempt that followed
  a training is offered it exactly when the score is below 100; and so is a retake,
  begun where the retake is offered, that is, on the summary screen of an attempt that
  followed a training.
\<close>

theorem retake_offered:
  assumes "word_pairs r \<noteq> []" and "list_all training_event ts" and "list_all exam_event es"
  shows
    "(let q = run (exam_only r es @ [SummaryArrives dir now score]) p
      in (activeScreen q = SummaryScreen \<longleftrightarrow> localStorage p \<noteq> JsonPrimitive)
         \<and> (activeScreen q = SummaryScreen \<longrightarrow> \<not> retakeSection q))
     \<and> (let q = run (exam_after_training r0 ts r es @ [SummaryArrives dir now score]) p
        in (activeScreen q = SummaryScreen \<longleftrightarrow> localStorage p \<noteq> JsonPrimitive)
           \<and> (activeScreen q = SummaryScreen \<longrightarrow> (retakeSection q \<longleftrightarrow> score < 100)))
     \<and> (activeScreen p = SummaryScreen \<and> retakeSection p \<longrightarrow>
          (let q = run (retake r es @ [SummaryArrives dir now score]) p
           in (activeScreen q = SummaryScreen \<longleftrightarrow> localStorage p \<noteq> JsonPrimitive)
              \<and> (activeScreen q = SummaryScreen \<longrightarrow> (retakeSection q \<longleftrightarrow> score < 100))))"
proof -
  let ?s = "[SummaryArrives dir now score]"
  let ?a = "run ?s (run (exam_only r es) p)"
  let ?b = "run ?s (run (exam_after_training r0 ts r es) p)"
  let ?c = "run ?s (run (retake r es) p)"
  have "(activeScreen ?a = SummaryScreen \<longleftrightarrow> localStorage p \<noteq> JsonPrimitive)
      \<and> (activeScreen ?a = SummaryScreen \<longrightarrow> (retakeSection ?a \<longleftrightarrow> False \<and> score < 100))"
    by (rule summary_of_attempt [OF kept_exam_only [OF assms(3)] assms(1)])
  moreover have "(activeScreen ?b = SummaryScreen \<longleftrightarrow> localStorage p \<noteq> JsonPrimitive)
      \<and> (activeScreen ?b = SummaryScreen \<longrightarrow> (retakeSection ?b \<longleftrightarrow> True \<and> score < 100))"
    by (rule summary_of_attempt [OF kept_exam_after_training [OF assms(2,3)] assms(1)])
  moreover have "(activeScreen ?c = SummaryScreen \<longleftrightarrow> localStorage p \<noteq> JsonPrimitive)
      \<and> (activeScreen ?c = SummaryScreen \<longrightarrow> (retakeSection ?c \<longleftrightarrow> True \<and> score < 100))"
    by (rule summary_of_attempt [OF kept_retake [OF assms(3)] assms(1)])
  ultimately show ?thesis
    unfolding Let_def run_append by simp
qed

text \<open>
  An instance: the training with the word of the lion, its exam, a wrong answer and a
  score of 0 give the summary screen with the retake section; the retake from there,
  answered wrongly again, is offered the retake again, and with a score of 100 it is
  not; the same exam without the training gives the summary screen without the section;
  with the text \<^verbatim>\<open>5\<close> in the store the summary screen does not come up.
\<close>

theorem retake_offered_witness:
  "word_pairs one_question \<noteq> [] \<and> list_all training_event [ClickNextWord]
   \<and> list_all exam_event [Input [955], ClickSubmit, AnswerArrives wrong, ClickSubmit]
   \<and> activeScreen (run (training_and_exam @ [SummaryArrives greek_to_bulgarian stamp 0]) (loaded NoItem))
       = SummaryScreen
   \<and> retakeSection (run (training_and_exam @ [SummaryArrives greek_to_bulgarian stamp 0]) (loaded NoItem))
   \<and> activeScreen (run (retaken_exam @ [SummaryArrives greek_to_bulgarian stamp 0])
        (run (training_and_exam @ [SummaryArrives greek_to_bulgarian stamp 0]) (loaded NoItem)))
       = SummaryScreen
   \<and> retakeSection (run (retaken_exam @ [SummaryArrives greek_to_bulgarian stamp 0])
        (run (training_and_exam @ [SummaryArrives greek_to_bulgarian stamp 0]) (loaded NoItem)))
   \<and> \<not> retakeSection (run (retaken_exam @ [SummaryArrives greek_to_bulgarian stamp 100])
        (run (training_and_exam @ [SummaryArrives greek_to_bulgarian stamp 0]) (loaded NoItem)))
   \<and> activeScreen (run (exam_alone @ [SummaryArrives greek_to_bulgarian stamp 0]) (loaded NoItem))
       = SummaryScreen
   \<and> \<not> retakeSection (run (exam_alone @ [SummaryArrives greek_to_bulgarian stamp 0]) (loaded NoItem))
   \<and> activeScreen (run (training_and_exam @ [SummaryArrives greek_to_bulgarian stamp 0]) (loaded JsonPrimitive))
       \<noteq> SummaryScreen"
proof -
  let ?es = "[Input [955], ClickSubmit, AnswerArrives wrong, ClickSubmit]"
  let ?p = "run (training_and_exam @ [SummaryArrives greek_to_bulgarian stamp 0]) (loaded NoItem)"
  have h: "word_pairs one_question \<noteq> []" "list_all training_event [ClickNextWord]"
    "list_all exam_event ?es"
    by (simp_all add: one_question_def)
  have e: "training_and_exam = exam_after_training one_question [ClickNextWord] one_question ?es"
    "exam_alone = exam_only one_question ?es"
    "retaken_exam = retake one_question ?es"
    by (simp_all add: training_and_exam_def exam_alone_def retaken_exam_def
          exam_after_training_def exam_only_def retake_def)
  have s: "localStorage (loaded NoItem) \<noteq> JsonPrimitive" "localStorage (loaded JsonPrimitive) = JsonPrimitive"
    by (simp_all add: loaded_def)
  have first: "activeScreen ?p = SummaryScreen" "retakeSection ?p"
    "activeScreen (run (exam_alone @ [SummaryArrives greek_to_bulgarian stamp 0]) (loaded NoItem)) = SummaryScreen"
    "\<not> retakeSection (run (exam_alone @ [SummaryArrives greek_to_bulgarian stamp 0]) (loaded NoItem))"
    using retake_offered [OF h, of greek_to_bulgarian stamp 0 "loaded NoItem" one_question] s(1)
    unfolding Let_def e by simp_all
  have stays: "activeScreen (run (training_and_exam @ [SummaryArrives greek_to_bulgarian stamp 0])
      (loaded JsonPrimitive)) \<noteq> SummaryScreen"
    using retake_offered [OF h, of greek_to_bulgarian stamp 0 "loaded JsonPrimitive" one_question] s(2)
    unfolding Let_def e by simp
  have "localStorage (run training_and_exam (loaded NoItem)) = NoItem"
    using kept_exam_after_training [OF h(2,3), of one_question one_question "loaded NoItem"]
    unfolding e by (simp add: kept_def loaded_def)
  then have "localStorage (run training_and_exam (loaded NoItem)) \<noteq> JsonPrimitive"
    by simp
  then have store: "localStorage ?p \<noteq> JsonPrimitive"
    by (rule store_after_summary)
  have again: "activeScreen (run (retaken_exam @ [SummaryArrives greek_to_bulgarian stamp 0]) ?p) = SummaryScreen"
    "retakeSection (run (retaken_exam @ [SummaryArrives greek_to_bulgarian stamp 0]) ?p)"
    "\<not> retakeSection (run (retaken_exam @ [SummaryArrives greek_to_bulgarian stamp 100]) ?p)"
    using retake_offered [OF h, of greek_to_bulgarian stamp 0 ?p one_question]
      retake_offered [OF h, of greek_to_bulgarian stamp 100 ?p one_question] first(1,2) store
    unfolding Let_def e by simp_all
  from h first again stays show ?thesis
    by simp
qed

end
